theory Spec2Isabelle
  imports Main
begin

text \<open>
  The row nodes of the grid (\<open>src/ts/entities/rowNode.ts\<close>): the node's fields, its
  setters and data mutators, its listener registry, and the selection operations
  (\<open>isSelected\<close>, \<open>selectThisNode\<close>, \<open>calculateSelectedFromChildren\<close>,
  \<open>setSelectedParams\<close>, \<open>doRowRangeSelection\<close>). Nodes live in a store and refer to each
  other by reference; every operation takes the grid and returns the grid it leaves, with the
  events it has dispatched appended to a log. An operation that can throw or fail to return
  has a result that says so.
\<close>

section \<open>Values of the host language\<close>

text \<open>
  A field that the TypeScript declares as \<open>number\<close> or \<open>boolean\<close> starts its life
  \<open>undefined\<close> and may be assigned \<open>null\<close> (\<open>clearRowTop\<close> does so). The setters compare
  with \<open>===\<close>, which tells \<open>undefined\<close>, \<open>null\<close> and every proper value apart, so the three
  are kept apart here and \<open>===\<close> is HOL equality. Numbers are integers: \<open>NaN\<close>, the one
  number that is not \<open>===\<close> to itself, is outside the model.
\<close>

datatype 'a jsval = Undefined | Null | Val 'a

text \<open>Cell values and plain objects (\<open>data\<close>, \<open>aggData\<close>): an object is its key/value
  pairs in insertion order, a lookup finds the first pair of the key.\<close>

datatype jsvalue = JNum int | JStr string | JBool bool

type_synonym jsobject = "(string \<times> jsvalue) list"

definition get_prop :: "jsobject \<Rightarrow> string \<Rightarrow> jsvalue option" where
  "get_prop obj k = map_of obj k"

text \<open>A count as \<open>updatedCount\<close> holds it: a number, or \<open>NaN\<close> once \<open>undefined\<close> has
  been added to it.\<close>

datatype jsnumber = Num nat | NaN

fun js_add :: "jsnumber \<Rightarrow> jsnumber \<Rightarrow> jsnumber" where
  "js_add (Num a) (Num b) = Num (a + b)"
| "js_add _ _ = NaN"

fun js_gt0 :: "jsnumber \<Rightarrow> bool" where
  "js_gt0 (Num a) = (0 < a)"
| "js_gt0 NaN = False"

text \<open>Truthiness of a string-valued field (\<open>if (this.floating)\<close>): \<open>undefined\<close> and the
  empty string are falsy.\<close>

fun truthy_string :: "string option \<Rightarrow> bool" where
  "truthy_string None = False"
| "truthy_string (Some s) = (s \<noteq> [])"

datatype error = TypeError

text \<open>The result of a call: \<open>None\<close> when the call does not return, \<open>Some (Inl e)\<close> when it
  throws, \<open>Some (Inr v)\<close> when it returns \<open>v\<close>.\<close>

type_synonym 'a res = "(error + 'a) option"

section \<open>Row nodes\<close>

type_synonym ref = nat

type_synonym listener = nat

text \<open>The node's lazily created listener registry: the registered (event type, listener)
  pairs.\<close>

type_synonym EventService = "(string \<times> listener) list"

text \<open>
  The fields of \<open>class RowNode\<close> that the operations below read or write. \<open>id\<close> and
  \<open>group\<close> carry a suffix, HOL has constants of those names. An id, a data object, a
  reference or an array that is \<open>undefined\<close> is \<open>None\<close>. \<open>selected\<close> is three-valued:
  \<open>None\<close> is \<open>undefined\<close> (mixed). \<open>group\<close>, \<open>footer\<close> and \<open>daemon\<close> are only ever tested
  for truthiness, \<open>False\<close> stands for their initial \<open>undefined\<close>.
\<close>

record RowNode =
  id_node :: "string option"
  data :: "jsobject option"
  aggData :: "jsobject option"
  parent :: "ref option"
  level :: "int jsval"
  uiLevel :: "int jsval"
  group_node :: bool
  footer :: bool
  sibling :: "ref option"
  floating :: "string option"
  daemon :: bool
  selected :: "bool option"
  eventService :: "EventService option"
  childrenAfterGroup :: "ref list option"
  childrenAfterFilter :: "ref list option"
  firstChild :: "bool jsval"
  lastChild :: "bool jsval"
  childIndex :: "int jsval"
  rowIndex :: "int jsval"
  rowTop :: "int jsval"
  oldRowTop :: "int jsval"
  rowHeight :: "int jsval"
  allChildrenCount :: "int jsval"
  expanded :: "bool jsval"

text \<open>\<open>new RowNode()\<close>: every field \<open>undefined\<close>, except \<open>selected = false\<close>.\<close>

definition new_RowNode :: RowNode where
  "new_RowNode = \<lparr> id_node = None, data = None, aggData = None, parent = None,
     level = Undefined, uiLevel = Undefined, group_node = False, footer = False,
     sibling = None, floating = None, daemon = False, selected = Some False,
     eventService = None, childrenAfterGroup = None, childrenAfterFilter = None,
     firstChild = Undefined, lastChild = Undefined, childIndex = Undefined,
     rowIndex = Undefined, rowTop = Undefined, oldRowTop = Undefined,
     rowHeight = Undefined, allChildrenCount = Undefined, expanded = Undefined \<rparr>"

section \<open>Events\<close>

abbreviation EVENT_ROW_SELECTED :: string where "EVENT_ROW_SELECTED \<equiv> ''rowSelected''"
abbreviation EVENT_DATA_CHANGED :: string where "EVENT_DATA_CHANGED \<equiv> ''dataChanged''"
abbreviation EVENT_CELL_CHANGED :: string where "EVENT_CELL_CHANGED \<equiv> ''cellChanged''"
abbreviation EVENT_ALL_CHILDREN_COUNT_CELL_CHANGED :: string where
  "EVENT_ALL_CHILDREN_COUNT_CELL_CHANGED \<equiv> ''allChildrenCountChanged''"
abbreviation EVENT_MOUSE_ENTER :: string where "EVENT_MOUSE_ENTER \<equiv> ''mouseEnter''"
abbreviation EVENT_MOUSE_LEAVE :: string where "EVENT_MOUSE_LEAVE \<equiv> ''mouseLeave''"
abbreviation EVENT_HEIGHT_CHANGED :: string where "EVENT_HEIGHT_CHANGED \<equiv> ''heightChanged''"
abbreviation EVENT_TOP_CHANGED :: string where "EVENT_TOP_CHANGED \<equiv> ''topChanged''"
abbreviation EVENT_FIRST_CHILD_CHANGED :: string where
  "EVENT_FIRST_CHILD_CHANGED \<equiv> ''firstChildChanged''"
abbreviation EVENT_LAST_CHILD_CHANGED :: string where
  "EVENT_LAST_CHILD_CHANGED \<equiv> ''lastChildChanged''"
abbreviation EVENT_CHILD_INDEX_CHANGED :: string where
  "EVENT_CHILD_INDEX_CHANGED \<equiv> ''childIndexChanged''"
abbreviation EVENT_ROW_INDEX_CHANGED :: string where
  "EVENT_ROW_INDEX_CHANGED \<equiv> ''rowIndexChanged''"
abbreviation EVENT_EXPANDED_CHANGED :: string where
  "EVENT_EXPANDED_CHANGED \<equiv> ''expandedChanged''"
abbreviation EVENT_UI_LEVEL_CHANGED :: string where
  "EVENT_UI_LEVEL_CHANGED \<equiv> ''uiLevelChanged''"

text \<open>The names of the grid-wide events come from \<open>Events\<close>, whose string values are
  defined outside \<open>rowNode.ts\<close>; they are kept symbolic.\<close>

datatype Events =
    Events_EVENT_ROW_SELECTED
  | Events_EVENT_SELECTION_CHANGED
  | Events_EVENT_ROW_GROUP_OPENED

datatype column = Column string

text \<open>The event object passed to \<open>dispatchEvent\<close>.\<close>

datatype payload =
    NoEvent
  | NodeEvent ref
  | DataChangedEvent "jsobject option" "jsobject option" "bool option"
  | CellChangedEvent "column option" "jsvalue option"

text \<open>One call of \<open>dispatchEvent\<close>: on the registry of a node, or on the grid's main
  event service.\<close>

datatype dispatched = Local ref string payload | Global Events payload

datatype console_line = Warn string | Log string

section \<open>The grid: the store of nodes and what the operations leave behind\<close>

text \<open>
  Nodes are objects that the tree shares by reference, so they live in a store indexed by
  reference. \<open>nextRef\<close> is the next reference \<open>new RowNode()\<close> hands out. \<open>events\<close> is
  the sequence of \<open>dispatchEvent\<close> calls made so far, \<open>console\<close> the diagnostics written,
  \<open>lastSelectedNode\<close> the anchor that the selection controller keeps
  (\<open>getLastSelectedNode\<close>, \<open>setLastSelectedNode\<close>).
\<close>

record grid =
  heap :: "ref \<Rightarrow> RowNode"
  nextRef :: ref
  events :: "dispatched list"
  console :: "console_line list"
  lastSelectedNode :: "ref option"

definition update_node :: "grid \<Rightarrow> ref \<Rightarrow> (RowNode \<Rightarrow> RowNode) \<Rightarrow> grid" where
  "update_node g r f = g\<lparr>heap := (heap g)(r := f (heap g r))\<rparr>"

definition local_dispatchEvent :: "grid \<Rightarrow> ref \<Rightarrow> string \<Rightarrow> payload \<Rightarrow> grid" where
  "local_dispatchEvent g r eventName event = g\<lparr>events := events g @ [Local r eventName event]\<rparr>"

definition main_dispatchEvent :: "grid \<Rightarrow> Events \<Rightarrow> payload \<Rightarrow> grid" where
  "main_dispatchEvent g eventName event = g\<lparr>events := events g @ [Global eventName event]\<rparr>"

definition dispatchLocalEvent :: "grid \<Rightarrow> ref \<Rightarrow> string \<Rightarrow> payload \<Rightarrow> grid" where
  "dispatchLocalEvent g r eventName event =
     (if eventService (heap g r) \<noteq> None then local_dispatchEvent g r eventName event else g)"

section \<open>Data mutators\<close>

definition setData :: "grid \<Rightarrow> ref \<Rightarrow> jsobject option \<Rightarrow> grid" where
  "setData g r d =
     (let oldData = data (heap g r);
          g1 = update_node g r (\<lambda>n. n\<lparr>data := d\<rparr>)
      in dispatchLocalEvent g1 r EVENT_DATA_CHANGED (DataChangedEvent oldData d (Some False)))"

definition updateData :: "grid \<Rightarrow> ref \<Rightarrow> jsobject option \<Rightarrow> grid" where
  "updateData g r d =
     (let oldData = data (heap g r);
          g1 = update_node g r (\<lambda>n. n\<lparr>data := d\<rparr>)
      in dispatchLocalEvent g1 r EVENT_DATA_CHANGED (DataChangedEvent oldData d (Some True)))"

section \<open>Layout setters\<close>

definition setFirstChild :: "grid \<Rightarrow> ref \<Rightarrow> bool jsval \<Rightarrow> grid" where
  "setFirstChild g r v =
     (if firstChild (heap g r) = v then g
      else let g1 = update_node g r (\<lambda>n. n\<lparr>firstChild := v\<rparr>)
           in if eventService (heap g1 r) \<noteq> None
              then local_dispatchEvent g1 r EVENT_FIRST_CHILD_CHANGED NoEvent else g1)"

definition setLastChild :: "grid \<Rightarrow> ref \<Rightarrow> bool jsval \<Rightarrow> grid" where
  "setLastChild g r v =
     (if lastChild (heap g r) = v then g
      else let g1 = update_node g r (\<lambda>n. n\<lparr>lastChild := v\<rparr>)
           in if eventService (heap g1 r) \<noteq> None
              then local_dispatchEvent g1 r EVENT_LAST_CHILD_CHANGED NoEvent else g1)"

definition setChildIndex :: "grid \<Rightarrow> ref \<Rightarrow> int jsval \<Rightarrow> grid" where
  "setChildIndex g r v =
     (if childIndex (heap g r) = v then g
      else let g1 = update_node g r (\<lambda>n. n\<lparr>childIndex := v\<rparr>)
           in if eventService (heap g1 r) \<noteq> None
              then local_dispatchEvent g1 r EVENT_CHILD_INDEX_CHANGED NoEvent else g1)"

definition setRowTop :: "grid \<Rightarrow> ref \<Rightarrow> int jsval \<Rightarrow> grid" where
  "setRowTop g r v =
     (if rowTop (heap g r) = v then g
      else let g1 = update_node g r (\<lambda>n. n\<lparr>rowTop := v\<rparr>)
           in if eventService (heap g1 r) \<noteq> None
              then local_dispatchEvent g1 r EVENT_TOP_CHANGED NoEvent else g1)"

definition clearRowTop :: "grid \<Rightarrow> ref \<Rightarrow> grid" where
  "clearRowTop g r =
     setRowTop (update_node g r (\<lambda>n. n\<lparr>oldRowTop := rowTop n\<rparr>)) r Null"

definition setAllChildrenCount :: "grid \<Rightarrow> ref \<Rightarrow> int jsval \<Rightarrow> grid" where
  "setAllChildrenCount g r v =
     (if allChildrenCount (heap g r) = v then g
      else let g1 = update_node g r (\<lambda>n. n\<lparr>allChildrenCount := v\<rparr>)
           in if eventService (heap g1 r) \<noteq> None
              then local_dispatchEvent g1 r EVENT_ALL_CHILDREN_COUNT_CELL_CHANGED NoEvent else g1)"

definition setRowHeight :: "grid \<Rightarrow> ref \<Rightarrow> int jsval \<Rightarrow> grid" where
  "setRowHeight g r v =
     (let g1 = update_node g r (\<lambda>n. n\<lparr>rowHeight := v\<rparr>)
      in if eventService (heap g1 r) \<noteq> None
         then local_dispatchEvent g1 r EVENT_HEIGHT_CHANGED NoEvent else g1)"

definition setRowIndex :: "grid \<Rightarrow> ref \<Rightarrow> int jsval \<Rightarrow> grid" where
  "setRowIndex g r v =
     (let g1 = update_node g r (\<lambda>n. n\<lparr>rowIndex := v\<rparr>)
      in if eventService (heap g1 r) \<noteq> None
         then local_dispatchEvent g1 r EVENT_ROW_INDEX_CHANGED NoEvent else g1)"

definition setUiLevel :: "grid \<Rightarrow> ref \<Rightarrow> int jsval \<Rightarrow> grid" where
  "setUiLevel g r v =
     (if uiLevel (heap g r) = v then g
      else let g1 = update_node g r (\<lambda>n. n\<lparr>uiLevel := v\<rparr>)
           in if eventService (heap g1 r) \<noteq> None
              then local_dispatchEvent g1 r EVENT_UI_LEVEL_CHANGED NoEvent else g1)"

definition setExpanded :: "grid \<Rightarrow> ref \<Rightarrow> bool jsval \<Rightarrow> grid" where
  "setExpanded g r v =
     (if expanded (heap g r) = v then g
      else let g1 = update_node g r (\<lambda>n. n\<lparr>expanded := v\<rparr>);
               g2 = (if eventService (heap g1 r) \<noteq> None
                     then local_dispatchEvent g1 r EVENT_EXPANDED_CHANGED NoEvent else g1)
           in main_dispatchEvent g2 Events_EVENT_ROW_GROUP_OPENED (NodeEvent r))"

section \<open>Listeners\<close>

text \<open>
  Modelled from the spec: \<open>EventService\<close> lies outside \<open>rowNode.ts\<close>; the spec treats it
  as a publish/subscribe primitive. Its registry is the list of registered pairs,
  \<open>addEventListener\<close> appends one and \<open>removeEventListener\<close> takes one out.
\<close>

definition EventService_addEventListener :: "EventService \<Rightarrow> string \<Rightarrow> listener \<Rightarrow> EventService" where
  "EventService_addEventListener es eventType l = es @ [(eventType, l)]"

definition EventService_removeEventListener :: "EventService \<Rightarrow> string \<Rightarrow> listener \<Rightarrow> EventService" where
  "EventService_removeEventListener es eventType l = remove1 (eventType, l) es"

definition addEventListener :: "grid \<Rightarrow> ref \<Rightarrow> string \<Rightarrow> listener \<Rightarrow> grid" where
  "addEventListener g r eventType l =
     (let g1 = (if eventService (heap g r) = None
                then update_node g r (\<lambda>n. n\<lparr>eventService := Some []\<rparr>) else g)
      in update_node g1 r (\<lambda>n. n\<lparr>eventService :=
           map_option (\<lambda>es. EventService_addEventListener es eventType l) (eventService n)\<rparr>))"

text \<open>\<open>this.eventService.removeEventListener(...)\<close> reads a property of \<open>undefined\<close> when the
  registry was never created: a \<open>TypeError\<close>.\<close>

definition removeEventListener :: "grid \<Rightarrow> ref \<Rightarrow> string \<Rightarrow> listener \<Rightarrow> error + grid" where
  "removeEventListener g r eventType l =
     (case eventService (heap g r) of
        None \<Rightarrow> Inl TypeError
      | Some es \<Rightarrow> Inr (update_node g r (\<lambda>n. n\<lparr>eventService :=
           Some (EventService_removeEventListener es eventType l)\<rparr>)))"

definition onMouseEnter :: "grid \<Rightarrow> ref \<Rightarrow> grid" where
  "onMouseEnter g r = dispatchLocalEvent g r EVENT_MOUSE_ENTER NoEvent"

definition onMouseLeave :: "grid \<Rightarrow> ref \<Rightarrow> grid" where
  "onMouseLeave g r = dispatchLocalEvent g r EVENT_MOUSE_LEAVE NoEvent"

section \<open>Collaborators\<close>

text \<open>
  What the node asks of the services wired into it. Their code lies outside
  \<open>rowNode.ts\<close>, so each is a parameter of the operations:
  \<^item> \<open>gridOptionsWrapper\<close>: \<open>isGroupSelectsChildren()\<close>, \<open>isRowSelectionMulti()\<close> and
    \<open>getRowNodeIdFunc()\<close> (absent when no resolver is configured);
  \<^item> \<open>rowModel\<close>: whether \<open>getType()\<close> is \<open>Constants.ROW_MODEL_TYPE_NORMAL\<close>, the nodes in
    the order in which \<open>forEachNodeAfterFilterAndSort\<close> visits them, and
    \<open>getTopLevelNodes()\<close>;
  \<^item> \<open>columnController.getGridColumn\<close>;
  \<^item> \<open>selectionController\<close>: \<open>clearOtherNodes\<close> and \<open>syncInRowNode\<close> (the anchor it keeps
    is the grid's \<open>lastSelectedNode\<close>);
  \<^item> \<open>Utils\<close>: \<open>exists\<close> as applied to an id and \<open>missing\<close> as applied to an array of
    children.
\<close>

record env =
  isGroupSelectsChildren :: bool
  isRowSelectionMulti :: bool
  getRowNodeIdFunc :: "(jsobject \<Rightarrow> string option) option"
  rowModelNormal :: bool
  forEachNodeAfterFilterAndSort :: "ref list"
  getTopLevelNodes :: "ref list"
  getGridColumn :: "string \<Rightarrow> column option"
  clearOtherNodes :: "grid \<Rightarrow> ref \<Rightarrow> (jsnumber \<times> grid) res"
  syncInRowNode :: "grid \<Rightarrow> ref \<Rightarrow> ref option \<Rightarrow> grid"
  utils_exists :: "string option \<Rightarrow> bool"
  utils_missing :: "ref list option \<Rightarrow> bool"

definition bind_res :: "'a res \<Rightarrow> ('a \<Rightarrow> 'b res) \<Rightarrow> 'b res" where
  "bind_res m f = (case m of None \<Rightarrow> None | Some (Inl e) \<Rightarrow> Some (Inl e) | Some (Inr v) \<Rightarrow> f v)"

text \<open>\<open>array.forEach\<close> and the \<open>for\<close> loops over an array, with the state threaded
  through and the first throw or non-return ending the loop.\<close>

fun forEach :: "('s \<Rightarrow> 'a \<Rightarrow> 's res) \<Rightarrow> 's \<Rightarrow> 'a list \<Rightarrow> 's res" where
  "forEach f s [] = Some (Inr s)"
| "forEach f s (x # xs) = bind_res (f s x) (\<lambda>s'. forEach f s' xs)"

section \<open>Aggregate data\<close>

text \<open>
  Modelled from the spec: \<open>Utils.getAllKeysInObjects\<close> lies outside \<open>rowNode.ts\<close>. The
  spec says that it computes the union of the column keys present in the old and the new
  aggregate data: every key of one of the objects, once, here in the order of first
  appearance. An absent object contributes no key.
\<close>

definition Object_keys :: "jsobject option \<Rightarrow> string list" where
  "Object_keys obj = (case obj of None \<Rightarrow> [] | Some kvs \<Rightarrow> map fst kvs)"

definition getAllKeysInObjects :: "jsobject option list \<Rightarrow> string list" where
  "getAllKeysInObjects objs = rev (remdups (rev (concat (map Object_keys objs))))"

definition dispatchCellChangedEvent :: "grid \<Rightarrow> ref \<Rightarrow> column option \<Rightarrow> jsvalue option \<Rightarrow> grid" where
  "dispatchCellChangedEvent g r col newValue =
     dispatchLocalEvent g r EVENT_CELL_CHANGED (CellChangedEvent col newValue)"

definition setAggData :: "env \<Rightarrow> grid \<Rightarrow> ref \<Rightarrow> jsobject option \<Rightarrow> grid" where
  "setAggData e g r newAggData =
     (let colIds = getAllKeysInObjects [aggData (heap g r), newAggData];
          g1 = update_node g r (\<lambda>n. n\<lparr>aggData := newAggData\<rparr>)
      in if eventService (heap g1 r) \<noteq> None
         then fold (\<lambda>colId g'.
                 let col = getGridColumn e colId;
                     v = (case data (heap g' r) of Some d \<Rightarrow> get_prop d colId | None \<Rightarrow> None)
                 in dispatchCellChangedEvent g' r col v) colIds g1
         else g1)"

section \<open>Identity\<close>

definition setId :: "env \<Rightarrow> grid \<Rightarrow> ref \<Rightarrow> string option \<Rightarrow> grid" where
  "setId e g r i =
     (case getRowNodeIdFunc e of
        Some getRowNodeId \<Rightarrow>
          (case data (heap g r) of
             Some d \<Rightarrow> update_node g r (\<lambda>n. n\<lparr>id_node := getRowNodeId d\<rparr>)
           | None \<Rightarrow> update_node g r (\<lambda>n. n\<lparr>id_node := None\<rparr>))
      | None \<Rightarrow> update_node g r (\<lambda>n. n\<lparr>id_node := i\<rparr>))"

text \<open>\<open>new RowNode()\<close> takes the next free reference. \<open>context.wireBean\<close> gives the new
  node the services, which are parameters here, so it leaves the store as it is.\<close>

definition createDaemonNode :: "grid \<Rightarrow> ref \<Rightarrow> ref \<times> grid" where
  "createDaemonNode g r =
     (let oldNode = nextRef g;
          g1 = g\<lparr>heap := (heap g)(oldNode := new_RowNode), nextRef := Suc (nextRef g)\<rparr>;
          g2 = update_node g1 oldNode (\<lambda>n. n\<lparr>id_node := id_node (heap g1 r)\<rparr>);
          g3 = update_node g2 oldNode (\<lambda>n. n\<lparr>data := data (heap g2 r)\<rparr>);
          g4 = update_node g3 oldNode (\<lambda>n. n\<lparr>daemon := True\<rparr>);
          g5 = update_node g4 oldNode (\<lambda>n. n\<lparr>selected := selected (heap g4 r)\<rparr>);
          g6 = update_node g5 oldNode (\<lambda>n. n\<lparr>level := level (heap g5 r)\<rparr>)
      in (oldNode, g6))"

definition setDataAndId :: "env \<Rightarrow> grid \<Rightarrow> ref \<Rightarrow> jsobject option \<Rightarrow> string option \<Rightarrow> grid" where
  "setDataAndId e g r d i =
     (let (oldNode, g1) = (if utils_exists e (id_node (heap g r))
                           then (let (n, g') = createDaemonNode g r in (Some n, g'))
                           else (None, g));
          oldData = data (heap g1 r);
          g2 = update_node g1 r (\<lambda>n. n\<lparr>data := d\<rparr>);
          g3 = setId e g2 r i;
          g4 = syncInRowNode e g3 r oldNode
      in dispatchLocalEvent g4 r EVENT_DATA_CHANGED (DataChangedEvent oldData d None))"

section \<open>Selection\<close>

text \<open>A footer answers with its sibling's state. A footer without a sibling throws; a
  chain of footers that comes back to itself does not return.\<close>

partial_function (option) isSelected :: "(ref \<Rightarrow> RowNode) \<Rightarrow> ref \<Rightarrow> (error + bool option) option" where
  "isSelected h r =
     (if footer (h r)
      then (case sibling (h r) of None \<Rightarrow> Some (Inl TypeError) | Some s \<Rightarrow> isSelected h s)
      else Some (Inr (selected (h r))))"

definition selectThisNode :: "grid \<Rightarrow> ref \<Rightarrow> bool option \<Rightarrow> bool \<times> grid" where
  "selectThisNode g r newValue =
     (if selected (heap g r) = newValue then (False, g)
      else let g1 = update_node g r (\<lambda>n. n\<lparr>selected := newValue\<rparr>);
               g2 = (if eventService (heap g1 r) \<noteq> None
                     then dispatchLocalEvent g1 r EVENT_ROW_SELECTED NoEvent else g1);
               g3 = main_dispatchEvent g2 Events_EVENT_ROW_SELECTED (NodeEvent r)
           in (True, g3))"

text \<open>The loop of \<open>calculateSelectedFromChildren\<close>: the three flags
  (\<open>atLeastOneSelected\<close>, \<open>atLeastOneDeSelected\<close>, \<open>atLeastOneMixed\<close>) after the children.\<close>

fun childStates :: "(ref \<Rightarrow> RowNode) \<Rightarrow> bool \<times> bool \<times> bool \<Rightarrow> ref list \<Rightarrow> (bool \<times> bool \<times> bool) res" where
  "childStates h flags [] = Some (Inr flags)"
| "childStates h (atLeastOneSelected, atLeastOneDeSelected, atLeastOneMixed) (c # cs) =
     bind_res (isSelected h c) (\<lambda>childState.
       childStates h
         (case childState of
            Some True \<Rightarrow> (True, atLeastOneDeSelected, atLeastOneMixed)
          | Some False \<Rightarrow> (atLeastOneSelected, True, atLeastOneMixed)
          | None \<Rightarrow> (atLeastOneSelected, atLeastOneDeSelected, True)) cs)"

definition calculateSelectedFromChildren :: "grid \<Rightarrow> ref \<Rightarrow> grid res" where
  "calculateSelectedFromChildren g r =
     bind_res (case childrenAfterGroup (heap g r) of
                 None \<Rightarrow> Some (Inr (False, False, False))
               | Some cs \<Rightarrow> childStates (heap g) (False, False, False) cs)
       (\<lambda>(atLeastOneSelected, atLeastOneDeSelected, atLeastOneMixed).
          let newSelectedValue =
                (if atLeastOneMixed then None
                 else if atLeastOneSelected \<and> \<not> atLeastOneDeSelected then Some True
                 else if \<not> atLeastOneSelected \<and> atLeastOneDeSelected then Some False
                 else None)
          in Some (Inr (snd (selectThisNode g r newSelectedValue))))"

partial_function (option) calculateSelectedFromChildrenBubbleUp :: "grid \<Rightarrow> ref \<Rightarrow> (error + grid) option" where
  "calculateSelectedFromChildrenBubbleUp g r =
     (case calculateSelectedFromChildren g r of
        None \<Rightarrow> None
      | Some (Inl e) \<Rightarrow> Some (Inl e)
      | Some (Inr g1) \<Rightarrow>
          (case parent (heap g1 r) of
             None \<Rightarrow> Some (Inr g1)
           | Some p \<Rightarrow> calculateSelectedFromChildrenBubbleUp g1 p))"

text \<open>The \<open>while\<close> loop of \<open>isParentOfNode\<close>, from \<open>parentNode\<close> upwards. It does not
  return on a parent chain that comes back to itself.\<close>

partial_function (option) isParentOfNode_loop :: "(ref \<Rightarrow> RowNode) \<Rightarrow> ref option \<Rightarrow> ref option \<Rightarrow> bool option" where
  "isParentOfNode_loop h parentNode potentialParent =
     (case parentNode of
        None \<Rightarrow> Some False
      | Some p \<Rightarrow> if parentNode = potentialParent then Some True
                  else isParentOfNode_loop h (parent (h p)) potentialParent)"

definition isParentOfNode :: "(ref \<Rightarrow> RowNode) \<Rightarrow> ref \<Rightarrow> ref option \<Rightarrow> bool option" where
  "isParentOfNode h r potentialParent = isParentOfNode_loop h (parent (h r)) potentialParent"

text \<open>\<open>depthFirstSearch\<close> recurses into the children; the first argument bounds the depth
  of the recursion, and a call that needs more does not return.\<close>

primrec depthFirstSearch :: "nat \<Rightarrow> (grid \<Rightarrow> ref \<Rightarrow> grid res) \<Rightarrow> grid \<Rightarrow> ref \<Rightarrow> grid res" where
  "depthFirstSearch 0 = (\<lambda>callback g r. None)"
| "depthFirstSearch (Suc fuel) = (\<lambda>callback g r.
     bind_res (case childrenAfterGroup (heap g r) of
                 None \<Rightarrow> Some (Inr g)
               | Some cs \<Rightarrow> forEach (depthFirstSearch fuel callback) g cs)
       (\<lambda>g1. callback g1 r))"

definition calculatedSelectedForAllGroupNodes :: "nat \<Rightarrow> env \<Rightarrow> grid \<Rightarrow> grid res" where
  "calculatedSelectedForAllGroupNodes fuel e g =
     forEach (\<lambda>g0 topLevelNode.
         if group_node (heap g0 topLevelNode)
         then bind_res (depthFirstSearch fuel
                          (\<lambda>g' childNode. if group_node (heap g' childNode)
                                           then calculateSelectedFromChildren g' childNode
                                           else Some (Inr g'))
                          g0 topLevelNode)
                (\<lambda>g1. calculateSelectedFromChildren g1 topLevelNode)
         else Some (Inr g0))
       g (getTopLevelNodes e)"

subsection \<open>Range selection\<close>

text \<open>The variables that the callback of \<open>doRowRangeSelection\<close> closes over and changes.\<close>

record walk =
  firstRowHit :: bool
  lastRowHit :: bool
  lastRow :: "ref option"
  updatedCount :: jsnumber
  walk_grid :: grid

definition doRowRangeSelection_callback :: "bool \<Rightarrow> ref option \<Rightarrow> ref \<Rightarrow> walk \<Rightarrow> ref \<Rightarrow> walk res" where
  "doRowRangeSelection_callback groupsSelectChildren lastSelected this w rowNode =
     (let lookingForLastRow = firstRowHit w \<and> \<not> lastRowHit w;
          w1 = (if \<not> firstRowHit w
                then (if Some rowNode = lastSelected \<or> rowNode = this
                      then w\<lparr>firstRowHit := True\<rparr> else w)
                else w);
          skipThisGroupNode = group_node (heap (walk_grid w1) rowNode) \<and> groupsSelectChildren
      in bind_res
           (if \<not> skipThisGroupNode
            then (let inRange = firstRowHit w1 \<and> \<not> lastRowHit w1
                  in case isParentOfNode (heap (walk_grid w1)) rowNode (lastRow w1) of
                       None \<Rightarrow> None
                     | Some childOfLastRow \<Rightarrow>
                         (let (nodeWasSelected, g1) =
                                selectThisNode (walk_grid w1) rowNode (Some (inRange \<or> childOfLastRow))
                          in Some (Inr (w1\<lparr>updatedCount :=
                                              (if nodeWasSelected then js_add (updatedCount w1) (Num 1)
                                               else updatedCount w1),
                                            walk_grid := g1\<rparr>))))
            else Some (Inr w1))
           (\<lambda>w2. Some (Inr
              (if lookingForLastRow
               then (if Some rowNode = lastSelected \<or> rowNode = this
                     then w2\<lparr>lastRowHit := True,
                             lastRow := (if Some rowNode = lastSelected then lastSelected else Some this)\<rparr>
                     else w2)
               else w2))))"

definition doRowRangeSelection :: "nat \<Rightarrow> env \<Rightarrow> grid \<Rightarrow> ref \<Rightarrow> (jsnumber \<times> grid) res" where
  "doRowRangeSelection fuel e g this =
     (let lastSelected = lastSelectedNode g;
          groupsSelectChildren = isGroupSelectsChildren e;
          w0 = \<lparr>firstRowHit = (lastSelected = None), lastRowHit = False, lastRow = None,
                updatedCount = Num 0, walk_grid = g\<rparr>
      in bind_res (forEach (doRowRangeSelection_callback groupsSelectChildren lastSelected this)
                     w0 (forEachNodeAfterFilterAndSort e))
           (\<lambda>w. bind_res (if groupsSelectChildren
                           then calculatedSelectedForAllGroupNodes fuel e (walk_grid w)
                           else Some (Inr (walk_grid w)))
                  (\<lambda>g1. Some (Inr (updatedCount w,
                                    main_dispatchEvent g1 Events_EVENT_SELECTION_CHANGED NoEvent)))))"

subsection \<open>setSelectedParams\<close>

record SetSelectedParams =
  newValue :: "bool option"
  clearSelection :: "bool option"
  tailingNodeInSequence :: "bool option"
  rangeSelect :: "bool option"
  groupSelectsFiltered :: "bool option"

text \<open>\<open>selectChildNodes\<close>, with the recursive \<open>setSelectedParams\<close> as \<open>rec\<close>. The bare
  \<open>return;\<close> on missing children hands back \<open>undefined\<close>, which the caller's \<open>+=\<close> turns
  into \<open>NaN\<close>.\<close>

definition selectChildNodes ::
  "(grid \<Rightarrow> ref \<Rightarrow> SetSelectedParams \<Rightarrow> (jsnumber \<times> grid) res) \<Rightarrow> env \<Rightarrow> grid \<Rightarrow> ref \<Rightarrow> bool \<Rightarrow> bool
     \<Rightarrow> (jsnumber \<times> grid) res" where
  "selectChildNodes rec e g r newVal groupSelectsFilt =
     (let children = (if groupSelectsFilt then childrenAfterFilter (heap g r)
                      else childrenAfterGroup (heap g r))
      in if utils_missing e children then Some (Inr (NaN, g))
         else case children of
                None \<Rightarrow> Some (Inl TypeError)
              | Some cs \<Rightarrow>
                  forEach (\<lambda>(count, g') child.
                      bind_res (rec g' child
                                  \<lparr>newValue = Some newVal, clearSelection = Some False,
                                   tailingNodeInSequence = Some True, rangeSelect = None,
                                   groupSelectsFiltered = None\<rparr>)
                        (\<lambda>(c, g''). Some (Inr (js_add count c, g''))))
                    (Num 0, g) cs)"

definition setSelectedParams_body ::
  "nat \<Rightarrow> (grid \<Rightarrow> ref \<Rightarrow> SetSelectedParams \<Rightarrow> (jsnumber \<times> grid) res) \<Rightarrow> env \<Rightarrow> grid \<Rightarrow> ref
     \<Rightarrow> SetSelectedParams \<Rightarrow> (jsnumber \<times> grid) res" where
  "setSelectedParams_body fuel rec e g this params =
     (let groupSelectsChildren = isGroupSelectsChildren e;
          newVal = (newValue params = Some True);
          clearSel = (clearSelection params = Some True);
          tailing = (tailingNodeInSequence params = Some True);
          rangeSel = (rangeSelect params = Some True);
          groupSelectsFilt = (groupSelectsChildren \<and> groupSelectsFiltered params = Some True)
      in if id_node (heap g this) = None
         then Some (Inr (Num 0, g\<lparr>console := console g @
                 [Warn ''ag-Grid: cannot select node until id for node is known'']\<rparr>))
         else if truthy_string (floating (heap g this))
         then Some (Inr (Num 0, g\<lparr>console := console g @
                 [Log ''ag-Grid: cannot select floating rows'']\<rparr>))
         else if footer (heap g this)
         then (case sibling (heap g this) of
                 None \<Rightarrow> Some (Inl TypeError)
               | Some s \<Rightarrow> rec g s params)
         else if rangeSel \<and> rowModelNormal e \<and> lastSelectedNode g \<noteq> Some this
                 \<and> isRowSelectionMulti e
         then doRowRangeSelection fuel e g this
         else
           (let skipThisNode = (groupSelectsFilt \<and> group_node (heap g this));
                (count1, g1) = (if \<not> skipThisNode
                                then (let (thisNodeWasSelected, g') = selectThisNode g this (Some newVal)
                                      in (if thisNodeWasSelected then Num 1 else Num 0, g'))
                                else (Num 0, g))
            in bind_res (if groupSelectsChildren \<and> group_node (heap g1 this)
                         then bind_res (selectChildNodes rec e g1 this newVal groupSelectsFilt)
                                (\<lambda>(c, g'). Some (Inr (js_add count1 c, g')))
                         else Some (Inr (count1, g1)))
                 (\<lambda>(count2, g2).
                    let actionWasOnThisNode = \<not> tailing
                    in if actionWasOnThisNode
                       then
                         bind_res (if newVal \<and> (clearSel \<or> \<not> isRowSelectionMulti e)
                                   then bind_res (clearOtherNodes e g2 this)
                                          (\<lambda>(c, g'). Some (Inr (js_add count2 c, g')))
                                   else Some (Inr (count2, g2)))
                           (\<lambda>(count3, g3).
                              bind_res (if js_gt0 count3
                                        then bind_res
                                               (if groupSelectsFilt
                                                then calculatedSelectedForAllGroupNodes fuel e g3
                                                else if groupSelectsChildren
                                                then (case parent (heap g3 this) of
                                                        Some p \<Rightarrow> calculateSelectedFromChildrenBubbleUp g3 p
                                                      | None \<Rightarrow> Some (Inr g3))
                                                else Some (Inr g3))
                                               (\<lambda>g'. Some (Inr (main_dispatchEvent g'
                                                        Events_EVENT_SELECTION_CHANGED NoEvent)))
                                        else Some (Inr g3))
                                (\<lambda>g4. Some (Inr (count3,
                                         if newVal then g4\<lparr>lastSelectedNode := Some this\<rparr> else g4))))
                       else Some (Inr (count2, g2)))))"

text \<open>\<open>setSelectedParams\<close> calls itself on the sibling of a footer and on the children of
  a group; the first argument bounds the depth of these calls (and of the tree walks
  inside), and a call that needs more does not return.\<close>

primrec setSelectedParams ::
  "nat \<Rightarrow> env \<Rightarrow> grid \<Rightarrow> ref \<Rightarrow> SetSelectedParams \<Rightarrow> (jsnumber \<times> grid) res" where
  "setSelectedParams 0 e = (\<lambda>g this params. None)"
| "setSelectedParams (Suc fuel) e = setSelectedParams_body fuel (setSelectedParams fuel e) e"

text \<open>\<open>setSelected\<close> builds the parameters (an omitted argument takes its default
  \<open>false\<close>) and drops the count that \<open>setSelectedParams\<close> returns: it has no \<open>return\<close>,
  so what the caller gets is \<open>undefined\<close>, here \<open>None\<close>, beside the grid.\<close>

definition setSelected_params :: "bool option \<Rightarrow> bool option \<Rightarrow> bool option \<Rightarrow> SetSelectedParams" where
  "setSelected_params newVal clearSel tailing =
     \<lparr>newValue = newVal,
      clearSelection = Some (case clearSel of None \<Rightarrow> False | Some b \<Rightarrow> b),
      tailingNodeInSequence = Some (case tailing of None \<Rightarrow> False | Some b \<Rightarrow> b),
      rangeSelect = Some False,
      groupSelectsFiltered = None\<rparr>"

definition setSelected ::
  "nat \<Rightarrow> env \<Rightarrow> grid \<Rightarrow> ref \<Rightarrow> bool option \<Rightarrow> bool option \<Rightarrow> bool option
     \<Rightarrow> (jsnumber option \<times> grid) res" where
  "setSelected fuel e g r newVal clearSel tailing =
     bind_res (setSelectedParams fuel e g r (setSelected_params newVal clearSel tailing))
       (\<lambda>(count, g'). Some (Inr (None, g')))"

section \<open>Observations used in the statements\<close>

text \<open>The children that \<open>calculateSelectedFromChildren\<close> looks at: \<open>childrenAfterGroup\<close>,
  none when the field is \<open>undefined\<close>.\<close>

definition children_of :: "grid \<Rightarrow> ref \<Rightarrow> ref list" where
  "children_of g r = (case childrenAfterGroup (heap g r) of None \<Rightarrow> [] | Some cs \<Rightarrow> cs)"

text \<open>Every node with its selection blanked out: two grids with the same shape differ, in
  their nodes, by selection state only.\<close>

definition shape :: "grid \<Rightarrow> ref \<Rightarrow> RowNode" where
  "shape g r = (heap g r)\<lparr>selected := None\<rparr>"

text \<open>The set of the nodes with \<open>selected = true\<close>.\<close>

definition selectedNodes :: "grid \<Rightarrow> ref set" where
  "selectedNodes g = {r. selected (heap g r) = Some True}"

text \<open>One call returns whatever the other returns (and may return where the other does
  not).\<close>

definition le_res :: "'a option \<Rightarrow> 'a option \<Rightarrow> bool" where
  "le_res m m' = (\<forall>y. m = Some y \<longrightarrow> m' = Some y)"

text \<open>A function applied to what a call returns.\<close>

definition map_res :: "('a \<Rightarrow> 'b) \<Rightarrow> 'a res \<Rightarrow> 'b res" where
  "map_res f m = map_option (map_sum id f) m"

section \<open>Example grids\<close>

text \<open>A grid with one observed, selected node; a grid of untouched nodes; an environment
  without grouping, with multi-selection and without an id resolver.\<close>

definition ex_node :: RowNode where
  "ex_node = new_RowNode\<lparr>id_node := Some ''5'', data := Some [(''a'', JNum 1)],
     selected := Some True, level := Val 0, rowIndex := Val 3, eventService := Some []\<rparr>"

definition ex_grid :: grid where
  "ex_grid = \<lparr>heap = (\<lambda>_. new_RowNode)(0 := ex_node), nextRef = 1, events = [], console = [],
     lastSelectedNode = None\<rparr>"

definition ex_grid_fresh :: grid where
  "ex_grid_fresh = \<lparr>heap = (\<lambda>_. new_RowNode), nextRef = 1, events = [], console = [],
     lastSelectedNode = None\<rparr>"

definition ex_env :: env where
  "ex_env = \<lparr>isGroupSelectsChildren = False, isRowSelectionMulti = True,
     getRowNodeIdFunc = None, rowModelNormal = True,
     forEachNodeAfterFilterAndSort = [0], getTopLevelNodes = [0],
     getGridColumn = (\<lambda>colId. Some (Column colId)),
     clearOtherNodes = (\<lambda>g r. Some (Inr (Num 0, g))),
     syncInRowNode = (\<lambda>g r oldNode. g),
     utils_exists = (\<lambda>v. v \<noteq> None),
     utils_missing = (\<lambda>v. v = None)\<rparr>"

definition ex_grid_unselected :: grid where
  "ex_grid_unselected =
     \<lparr>heap = (\<lambda>_. new_RowNode)(0 := new_RowNode\<lparr>id_node := Some ''1''\<rparr>),
      nextRef = 1, events = [], console = [], lastSelectedNode = None\<rparr>"

definition ex_grid_selected :: grid where
  "ex_grid_selected =
     \<lparr>heap = (\<lambda>_. new_RowNode)(0 := new_RowNode\<lparr>id_node := Some ''1'', selected := Some True\<rparr>),
      nextRef = 1,
      events = [Global Events_EVENT_ROW_SELECTED (NodeEvent 0),
                Global Events_EVENT_SELECTION_CHANGED NoEvent],
      console = [], lastSelectedNode = Some 0\<rparr>"

text \<open>The grid after \<open>setAggData({a:1, b:2})\<close> on an observed node whose data has a
  value for column a only.\<close>

definition ex_grid_agg :: grid where
  "ex_grid_agg =
     setAggData ex_env
       \<lparr>heap = (\<lambda>_. new_RowNode)(0 := new_RowNode\<lparr>data := Some [(''a'', JNum 7)],
                                                      eventService := Some []\<rparr>),
        nextRef = 1, events = [], console = [], lastSelectedNode = None\<rparr>
       0 (Some [(''a'', JNum 1), (''b'', JNum 2)])"

text \<open>The tree Root, GroupA, Leaf1, Leaf2 of the spec's scenario, Leaf1 selected.\<close>

definition ex_tree :: grid where
  "ex_tree =
     \<lparr>heap = (\<lambda>_. new_RowNode)
        (0 := new_RowNode\<lparr>id_node := Some ''root'', group_node := True,
                childrenAfterGroup := Some [1]\<rparr>,
         1 := new_RowNode\<lparr>id_node := Some ''A'', group_node := True, parent := Some 0,
                childrenAfterGroup := Some [2, 3]\<rparr>,
         2 := new_RowNode\<lparr>id_node := Some ''1'', parent := Some 1, selected := Some True\<rparr>,
         3 := new_RowNode\<lparr>id_node := Some ''2'', parent := Some 1\<rparr>),
      nextRef = 4, events = [], console = [], lastSelectedNode = None\<rparr>"

text \<open>A group (node 0) and its footer (node 1); the same with a footer that has no id;
  and the first of the two after the group has been selected.\<close>

definition ex_grid_footer :: grid where
  "ex_grid_footer =
     \<lparr>heap = (\<lambda>_. new_RowNode)
        (0 := new_RowNode\<lparr>id_node := Some ''g'', group_node := True, sibling := Some 1\<rparr>,
         1 := new_RowNode\<lparr>id_node := Some ''g'', group_node := True, footer := True,
                sibling := Some 0\<rparr>),
      nextRef = 2, events = [], console = [], lastSelectedNode = None\<rparr>"

definition ex_grid_footer_noid :: grid where
  "ex_grid_footer_noid =
     \<lparr>heap = (\<lambda>_. new_RowNode)
        (0 := new_RowNode\<lparr>id_node := Some ''g'', group_node := True, sibling := Some 1\<rparr>,
         1 := new_RowNode\<lparr>group_node := True, footer := True, sibling := Some 0\<rparr>),
      nextRef = 2, events = [], console = [], lastSelectedNode = None\<rparr>"

definition ex_grid_footer_selected :: grid where
  "ex_grid_footer_selected =
     \<lparr>heap = (\<lambda>_. new_RowNode)
        (0 := new_RowNode\<lparr>id_node := Some ''g'', group_node := True, sibling := Some 1,
                selected := Some True\<rparr>,
         1 := new_RowNode\<lparr>id_node := Some ''g'', group_node := True, footer := True,
                sibling := Some 0\<rparr>),
      nextRef = 2,
      events = [Global Events_EVENT_ROW_SELECTED (NodeEvent 0),
                Global Events_EVENT_SELECTION_CHANGED NoEvent],
      console = [], lastSelectedNode = Some 0\<rparr>"

text \<open>Five rows in display order, the second one selected, and the parameters of a
  shift-click.\<close>

definition ex_range_params :: SetSelectedParams where
  "ex_range_params = \<lparr>newValue = Some True, clearSelection = Some False,
     tailingNodeInSequence = Some False, rangeSelect = Some True, groupSelectsFiltered = None\<rparr>"


definition ex_env5 :: env where
  "ex_env5 = ex_env\<lparr>forEachNodeAfterFilterAndSort := [0, 1, 2, 3, 4],
                     getTopLevelNodes := [0, 1, 2, 3, 4]\<rparr>"

definition ex_grid5 :: grid where
  "ex_grid5 =
     \<lparr>heap = (\<lambda>_. new_RowNode)
        (0 := new_RowNode\<lparr>id_node := Some ''n1''\<rparr>,
         1 := new_RowNode\<lparr>id_node := Some ''n2'', selected := Some True\<rparr>,
         2 := new_RowNode\<lparr>id_node := Some ''n3''\<rparr>,
         3 := new_RowNode\<lparr>id_node := Some ''n4''\<rparr>,
         4 := new_RowNode\<lparr>id_node := Some ''n5''\<rparr>),
      nextRef = 5, events = [], console = [], lastSelectedNode = None\<rparr>"

section \<open>Basic facts about the grid\<close>

lemma update_node_sel [simp]:
  "heap (update_node g r f) = (heap g)(r := f (heap g r))"
  "nextRef (update_node g r f) = nextRef g"
  "events (update_node g r f) = events g"
  "console (update_node g r f) = console g"
  "lastSelectedNode (update_node g r f) = lastSelectedNode g"
  by (simp_all add: update_node_def)

lemma local_dispatchEvent_sel [simp]:
  "heap (local_dispatchEvent g r n p) = heap g"
  "nextRef (local_dispatchEvent g r n p) = nextRef g"
  "events (local_dispatchEvent g r n p) = events g @ [Local r n p]"
  "console (local_dispatchEvent g r n p) = console g"
  "lastSelectedNode (local_dispatchEvent g r n p) = lastSelectedNode g"
  by (simp_all add: local_dispatchEvent_def)

lemma main_dispatchEvent_sel [simp]:
  "heap (main_dispatchEvent g n p) = heap g"
  "nextRef (main_dispatchEvent g n p) = nextRef g"
  "events (main_dispatchEvent g n p) = events g @ [Global n p]"
  "console (main_dispatchEvent g n p) = console g"
  "lastSelectedNode (main_dispatchEvent g n p) = lastSelectedNode g"
  by (simp_all add: main_dispatchEvent_def)

lemma dispatchLocalEvent_sel [simp]:
  "heap (dispatchLocalEvent g r n p) = heap g"
  "nextRef (dispatchLocalEvent g r n p) = nextRef g"
  "events (dispatchLocalEvent g r n p) =
     events g @ (if eventService (heap g r) \<noteq> None then [Local r n p] else [])"
  "console (dispatchLocalEvent g r n p) = console g"
  "lastSelectedNode (dispatchLocalEvent g r n p) = lastSelectedNode g"
  by (simp_all add: dispatchLocalEvent_def)

lemma selectThisNode_changes:
  "selected (heap g r) \<noteq> v \<Longrightarrow>
     selectThisNode g r v =
       (True, main_dispatchEvent
                (dispatchLocalEvent (update_node g r (\<lambda>n. n\<lparr>selected := v\<rparr>)) r
                   EVENT_ROW_SELECTED NoEvent)
                Events_EVENT_ROW_SELECTED (NodeEvent r))"
  by (simp add: selectThisNode_def Let_def dispatchLocalEvent_def)

lemma selectThisNode_same: "selected (heap g r) = v \<Longrightarrow> selectThisNode g r v = (False, g)"
  by (simp add: selectThisNode_def)

lemma selectThisNode_heap [simp]:
  "heap (snd (selectThisNode g r v)) = (heap g)(r := (heap g r)\<lparr>selected := v\<rparr>)"
  by (auto simp add: selectThisNode_def Let_def)

lemma bind_res_simps [simp]:
  "bind_res None f = None"
  "bind_res (Some (Inl e)) f = Some (Inl e)"
  "bind_res (Some (Inr v)) f = f v"
  by (simp_all add: bind_res_def)

lemma bind_res_Inr:
  "bind_res m f = Some (Inr v) \<Longrightarrow> \<exists>u. m = Some (Inr u) \<and> f u = Some (Inr v)"
  by (auto simp add: bind_res_def split: option.splits sum.splits)

lemma bind_res_cong_fun: "(\<And>v. f v = f' v) \<Longrightarrow> bind_res m f = bind_res m f'"
  by (simp add: bind_res_def split: option.splits sum.splits)

lemma map_res_simps [simp]:
  "map_res f None = None"
  "map_res f (Some (Inl e)) = Some (Inl e)"
  "map_res f (Some (Inr v)) = Some (Inr (f v))"
  by (simp_all add: map_res_def)

lemma map_res_bind_res: "map_res u (bind_res m f) = bind_res m (\<lambda>v. map_res u (f v))"
  by (simp add: bind_res_def split: option.splits sum.splits)

lemma bind_res_map_res: "bind_res (map_res u m) f = bind_res m (\<lambda>v. f (u v))"
  by (simp add: bind_res_def split: option.splits sum.splits)

lemma isParentOfNode_loop_None [simp]: "isParentOfNode_loop h None potentialParent = Some False"
  by (subst isParentOfNode_loop.simps) simp

lemma isParentOfNode_loop_Some:
  "isParentOfNode_loop h (Some p) potentialParent =
     (if Some p = potentialParent then Some True
      else isParentOfNode_loop h (parent (h p)) potentialParent)"
  by (subst isParentOfNode_loop.simps) simp

lemma isSelected_not_footer: "\<not> footer (h r) \<Longrightarrow> isSelected h r = Some (Inr (selected (h r)))"
  by (subst isSelected.simps) simp

lemma isSelected_footer:
  "footer (h f) \<Longrightarrow> sibling (h f) = Some s \<Longrightarrow> isSelected h f = isSelected h s"
  by (subst isSelected.simps) simp

section \<open>A deeper bound never changes a result\<close>

text \<open>The bound on the depth of the calls only decides whether a call returns within it:
  what a call returns under one bound it returns under every larger one.\<close>

lemma le_res_refl: "le_res m m"
  by (simp add: le_res_def)

lemma le_res_None: "le_res None m"
  by (simp add: le_res_def)

lemma le_res_bind:
  "le_res m m' \<Longrightarrow> (\<And>v. le_res (f v) (f' v)) \<Longrightarrow> le_res (bind_res m f) (bind_res m' f')"
  by (auto simp add: le_res_def bind_res_def split: option.splits sum.splits)

lemma le_res_if:
  "(c \<Longrightarrow> le_res a a') \<Longrightarrow> (\<not> c \<Longrightarrow> le_res b b') \<Longrightarrow>
   le_res (if c then a else b) (if c then a' else b')"
  by simp

lemma le_res_case_prod:
  "(\<And>a b. le_res (f a b) (f' a b)) \<Longrightarrow> le_res (case_prod f p) (case_prod f' p)"
  by (cases p) simp

lemma le_res_case_prod_app:
  "(\<And>a b. le_res (f a b x) (f' a b x)) \<Longrightarrow> le_res (case_prod f p x) (case_prod f' p x)"
  by (cases p) simp

lemma le_res_case_option:
  "le_res a a' \<Longrightarrow> (\<And>x. le_res (f x) (f' x)) \<Longrightarrow>
   le_res (case_option a f p) (case_option a' f' p)"
  by (cases p) simp_all

lemma le_res_forEach:
  assumes "\<And>s x. le_res (f s x) (f' s x)"
  shows "le_res (forEach f s xs) (forEach f' s xs)"
proof (induction xs arbitrary: s)
  case Nil
  show ?case by (simp add: le_res_refl)
next
  case (Cons x xs)
  show ?case by (simp add: le_res_bind assms Cons.IH)
qed

lemma depthFirstSearch_fuel:
  "le_res (depthFirstSearch fuel callback g r) (depthFirstSearch (Suc fuel) callback g r)"
proof (induction fuel arbitrary: g r)
  case 0
  show ?case by (simp add: le_res_None)
next
  case (Suc fuel)
  have step: "\<And>n. depthFirstSearch (Suc n) callback g r =
      bind_res (case childrenAfterGroup (heap g r) of
                  None \<Rightarrow> Some (Inr g)
                | Some cs \<Rightarrow> forEach (depthFirstSearch n callback) g cs)
        (\<lambda>g1. callback g1 r)"
    by simp
  show ?case
    unfolding step [of "Suc fuel"] step [of fuel]
    by (intro le_res_bind le_res_case_option le_res_forEach le_res_refl Suc.IH)
qed

lemma calculatedSelectedForAllGroupNodes_fuel:
  "le_res (calculatedSelectedForAllGroupNodes fuel e g)
          (calculatedSelectedForAllGroupNodes (Suc fuel) e g)"
  unfolding calculatedSelectedForAllGroupNodes_def
  by (intro le_res_forEach le_res_if le_res_bind depthFirstSearch_fuel le_res_refl)

lemma doRowRangeSelection_fuel:
  "le_res (doRowRangeSelection fuel e g this) (doRowRangeSelection (Suc fuel) e g this)"
  unfolding doRowRangeSelection_def Let_def
  by (intro le_res_bind le_res_if calculatedSelectedForAllGroupNodes_fuel le_res_refl)

lemma selectChildNodes_rec:
  assumes "\<And>g r p. le_res (rec g r p) (rec' g r p)"
  shows "le_res (selectChildNodes rec e g r v f) (selectChildNodes rec' e g r v f)"
  unfolding selectChildNodes_def Let_def
  by (intro le_res_if le_res_case_option le_res_forEach le_res_case_prod_app le_res_case_prod
      le_res_bind assms le_res_refl)

lemma setSelectedParams_body_fuel:
  assumes "\<And>g r p. le_res (rec g r p) (rec' g r p)"
  shows "le_res (setSelectedParams_body fuel rec e g this params)
                (setSelectedParams_body (Suc fuel) rec' e g this params)"
  unfolding setSelectedParams_body_def Let_def
  by (intro le_res_if le_res_case_option le_res_case_prod le_res_bind assms
      selectChildNodes_rec doRowRangeSelection_fuel calculatedSelectedForAllGroupNodes_fuel
      le_res_refl)

lemma setSelectedParams_fuel:
  "le_res (setSelectedParams fuel e g this params) (setSelectedParams (Suc fuel) e g this params)"
proof (induction fuel arbitrary: g this params)
  case 0
  show ?case by (simp add: le_res_None)
next
  case (Suc fuel)
  have step: "\<And>n. setSelectedParams (Suc n) e g this params =
      setSelectedParams_body n (setSelectedParams n e) e g this params"
    by simp
  show ?case
    unfolding step [of "Suc fuel"] step [of fuel]
    by (rule setSelectedParams_body_fuel) (rule Suc.IH)
qed

lemma setSelectedParams_more_fuel:
  "setSelectedParams fuel e g this params = Some y \<Longrightarrow>
   setSelectedParams (fuel + k) e g this params = Some y"
proof (induction k)
  case 0
  then show ?case by simp
next
  case (Suc k)
  with setSelectedParams_fuel [of "fuel + k" e g this params] show ?case
    by (simp add: le_res_def)
qed

section \<open>Rejected selections\<close>

text \<open>
  C2. On a node whose id is \<open>undefined\<close>, or whose \<open>floating\<close> field is set,
  \<open>setSelectedParams\<close> returns the count 0 whatever the parameters are, and the grid it
  leaves differs from the one it found by one line on the console only: no node, no event,
  no anchor has changed.
\<close>

theorem setSelectedParams_rejects:
  "id_node (heap g r) = None \<or> truthy_string (floating (heap g r)) \<Longrightarrow>
     \<exists>line. setSelectedParams (Suc fuel) e g r params
              = Some (Inr (Num 0, g\<lparr>console := console g @ [line]\<rparr>))"
  by (auto simp add: setSelectedParams_body_def Let_def)

theorem setSelectedParams_rejects_witness:
  "(id_node (heap ex_grid_fresh 0) = None \<or> truthy_string (floating (heap ex_grid_fresh 0)))
   \<and> (\<exists>line. setSelectedParams (Suc 0) ex_env ex_grid_fresh 0
                (setSelected_params (Some True) None None)
              = Some (Inr (Num 0, ex_grid_fresh\<lparr>console := console ex_grid_fresh @ [line]\<rparr>)))"
proof -
  have h: "id_node (heap ex_grid_fresh 0) = None \<or> truthy_string (floating (heap ex_grid_fresh 0))"
    by (simp add: ex_grid_fresh_def new_RowNode_def)
  from setSelectedParams_rejects [OF h, of 0 ex_env "setSelected_params (Some True) None None"] h
  show ?thesis by blast
qed

section \<open>Layout setters and equal values\<close>

text \<open>
  C4, as the claim has it, fails for \<open>setRowIndex\<close>: on a node with a listener registry,
  setting the row index to the value it already has fires \<open>rowIndexChanged\<close>.
\<close>

theorem setRowIndex_equal_value_counterexample:
  "\<not> (events (setRowIndex ex_grid 0 (rowIndex (heap ex_grid 0))) = events ex_grid)"
  by (simp add: setRowIndex_def ex_grid_def ex_node_def new_RowNode_def Let_def)

text \<open>
  C4, amended. Each of \<open>setRowTop\<close>, \<open>setFirstChild\<close>, \<open>setLastChild\<close>, \<open>setChildIndex\<close>,
  \<open>setAllChildrenCount\<close>, \<open>setUiLevel\<close> and \<open>setExpanded\<close>, called with the value the field
  already has, leaves the whole grid as it is: the field keeps its value and no event is
  fired. \<open>setRowHeight\<close> and \<open>setRowIndex\<close> compare nothing: they store the value and fire
  their event whenever the node has a listener registry.
\<close>

theorem guarded_setters_equal_value:
  "setRowTop g r (rowTop (heap g r)) = g
   \<and> setFirstChild g r (firstChild (heap g r)) = g
   \<and> setLastChild g r (lastChild (heap g r)) = g
   \<and> setChildIndex g r (childIndex (heap g r)) = g
   \<and> setAllChildrenCount g r (allChildrenCount (heap g r)) = g
   \<and> setUiLevel g r (uiLevel (heap g r)) = g
   \<and> setExpanded g r (expanded (heap g r)) = g
   \<and> rowHeight (heap (setRowHeight g r v) r) = v
   \<and> events (setRowHeight g r v) = events g @
        (if eventService (heap g r) \<noteq> None then [Local r EVENT_HEIGHT_CHANGED NoEvent] else [])
   \<and> rowIndex (heap (setRowIndex g r v) r) = v
   \<and> events (setRowIndex g r v) = events g @
        (if eventService (heap g r) \<noteq> None then [Local r EVENT_ROW_INDEX_CHANGED NoEvent] else [])"
  by (simp add: setRowTop_def setFirstChild_def setLastChild_def setChildIndex_def
      setAllChildrenCount_def setUiLevel_def setExpanded_def setRowHeight_def setRowIndex_def Let_def)

theorem guarded_setters_equal_value_witness:
  "setRowTop ex_grid 0 Undefined = ex_grid
   \<and> setExpanded ex_grid 0 Undefined = ex_grid
   \<and> events (setRowHeight ex_grid 0 Undefined) = [Local 0 EVENT_HEIGHT_CHANGED NoEvent]
   \<and> events (setRowIndex ex_grid 0 (Val 3)) = [Local 0 EVENT_ROW_INDEX_CHANGED NoEvent]"
  using guarded_setters_equal_value [of ex_grid 0 Undefined]
    guarded_setters_equal_value [of ex_grid 0 "Val 3"]
  by (simp add: ex_grid_def ex_node_def new_RowNode_def)

section \<open>Selecting twice\<close>

text \<open>
  C5, as the claim has it, fails: \<open>setSelected\<close> yields no updated-count. On a node with an
  id, not floating, not a footer and not selected, in a grid where groups do not select their
  children and multi-selection is on, \<open>setSelected(true)\<close> returns \<open>undefined\<close>, not 1.
\<close>

theorem setSelected_yields_no_count_counterexample:
  "id_node (heap ex_grid_unselected 0) \<noteq> None
   \<and> \<not> truthy_string (floating (heap ex_grid_unselected 0))
   \<and> \<not> footer (heap ex_grid_unselected 0)
   \<and> selected (heap ex_grid_unselected 0) = Some False
   \<and> \<not> isGroupSelectsChildren ex_env \<and> isRowSelectionMulti ex_env
   \<and> map_res fst (setSelected (Suc 0) ex_env ex_grid_unselected 0 (Some True) None None)
       = Some (Inr None)
   \<and> map_res fst (setSelected (Suc 0) ex_env ex_grid_unselected 0 (Some True) None None)
       \<noteq> Some (Inr (Some (Num 1)))"
  by (simp add: setSelected_def setSelectedParams_body_def setSelected_params_def Let_def
      selectThisNode_def ex_env_def ex_grid_unselected_def new_RowNode_def
      update_node_def main_dispatchEvent_def dispatchLocalEvent_def)

text \<open>
  C5, amended. Take a node with an id, not floating, not a footer and not selected, in a grid
  where groups do not select their children and multi-selection is on. The call of
  \<open>setSelectedParams\<close> that \<open>setSelected(true)\<close> makes (new value true, no clearing, action on
  this node, no range) returns the updated-count 1 and leaves the node selected, and the same
  call made again on the grid it left returns the updated-count 0 and changes nothing.
  \<open>setSelected(true)\<close> itself leaves the same grids and returns \<open>undefined\<close> both times.
\<close>

theorem setSelected_true_twice:
  assumes "id_node (heap g r) \<noteq> None"
    and "\<not> truthy_string (floating (heap g r))"
    and "\<not> footer (heap g r)"
    and "selected (heap g r) \<noteq> Some True"
    and "\<not> isGroupSelectsChildren e"
    and "isRowSelectionMulti e"
  shows "\<exists>g1. setSelectedParams (Suc fuel) e g r (setSelected_params (Some True) None None)
                 = Some (Inr (Num 1, g1))
            \<and> setSelected (Suc fuel) e g r (Some True) None None = Some (Inr (None, g1))
            \<and> selected (heap g1 r) = Some True
            \<and> setSelectedParams (Suc fuel') e g1 r (setSelected_params (Some True) None None)
                 = Some (Inr (Num 0, g1))
            \<and> setSelected (Suc fuel') e g1 r (Some True) None None = Some (Inr (None, g1))"
proof -
  let ?p = "setSelected_params (Some True) None None"
  let ?g1 = "(main_dispatchEvent (snd (selectThisNode g r (Some True)))
                Events_EVENT_SELECTION_CHANGED NoEvent)\<lparr>lastSelectedNode := Some r\<rparr>"
  have first: "setSelectedParams (Suc fuel) e g r ?p = Some (Inr (Num 1, ?g1))"
    using assms
    by (simp add: setSelectedParams_body_def setSelected_params_def Let_def bind_res_def
        selectThisNode_changes del: not_None_eq)
  have heap1: "heap ?g1 = (heap g)(r := (heap g r)\<lparr>selected := Some True\<rparr>)"
    by simp
  have second: "setSelectedParams (Suc fuel') e ?g1 r ?p = Some (Inr (Num 0, ?g1))"
    using assms
    by (simp add: setSelectedParams_body_def setSelected_params_def Let_def bind_res_def
        selectThisNode_same heap1 del: not_None_eq)
  show ?thesis
    using first second heap1 by (intro exI [of _ ?g1]) (simp add: setSelected_def bind_res_def)
qed

theorem setSelected_true_twice_witness:
  "setSelectedParams (Suc 0) ex_env ex_grid_unselected 0 (setSelected_params (Some True) None None)
     = Some (Inr (Num 1, ex_grid_selected))
   \<and> setSelectedParams (Suc 0) ex_env ex_grid_selected 0 (setSelected_params (Some True) None None)
     = Some (Inr (Num 0, ex_grid_selected))
   \<and> setSelected (Suc 0) ex_env ex_grid_unselected 0 (Some True) None None
     = Some (Inr (None, ex_grid_selected))
   \<and> setSelected (Suc 0) ex_env ex_grid_selected 0 (Some True) None None
     = Some (Inr (None, ex_grid_selected))"
proof -
  have first: "setSelectedParams (Suc 0) ex_env ex_grid_unselected 0
      (setSelected_params (Some True) None None) = Some (Inr (Num 1, ex_grid_selected))"
    by (simp add: setSelectedParams_body_def setSelected_params_def Let_def bind_res_def
        selectThisNode_def ex_env_def ex_grid_unselected_def ex_grid_selected_def new_RowNode_def
        update_node_def main_dispatchEvent_def dispatchLocalEvent_def)
  have hyps: "id_node (heap ex_grid_unselected 0) \<noteq> None"
    "\<not> truthy_string (floating (heap ex_grid_unselected 0))"
    "\<not> footer (heap ex_grid_unselected 0)"
    "selected (heap ex_grid_unselected 0) \<noteq> Some True"
    "\<not> isGroupSelectsChildren ex_env" "isRowSelectionMulti ex_env"
    by (simp_all add: ex_grid_unselected_def ex_env_def new_RowNode_def)
  from setSelected_true_twice [OF hyps, of 0 0] first show ?thesis
    by auto
qed

section \<open>Listeners that were never added\<close>

text \<open>
  C9. On a node whose listener registry was never created, \<open>removeEventListener\<close> throws
  (it reads a property of \<open>undefined\<close>), while the operations that fire local events check
  for the registry and fire nothing. Once \<open>addEventListener\<close> has run, the registry exists
  and \<open>removeEventListener\<close> returns.
\<close>

theorem removeEventListener_without_registry:
  "eventService (heap g r) = None \<Longrightarrow>
     removeEventListener g r eventType l = Inl TypeError
     \<and> dispatchLocalEvent g r eventName event = g
     \<and> onMouseEnter g r = g \<and> onMouseLeave g r = g
     \<and> events (setData g r d) = events g
     \<and> events (setRowHeight g r v) = events g
     \<and> (\<exists>g'. removeEventListener (addEventListener g r eventType' l') r eventType l = Inr g')"
  by (simp add: removeEventListener_def dispatchLocalEvent_def addEventListener_def
      onMouseEnter_def onMouseLeave_def setData_def setRowHeight_def Let_def)

theorem removeEventListener_without_registry_witness:
  "eventService (heap ex_grid_fresh 0) = None
   \<and> removeEventListener ex_grid_fresh 0 EVENT_ROW_SELECTED 7 = Inl TypeError
   \<and> onMouseEnter ex_grid_fresh 0 = ex_grid_fresh"
  using removeEventListener_without_registry [of ex_grid_fresh 0 EVENT_ROW_SELECTED 7]
  by (simp add: ex_grid_fresh_def new_RowNode_def)

section \<open>setData and updateData touch the data only\<close>

text \<open>
  C10. \<open>setData\<close> and \<open>updateData\<close> replace the \<open>data\<close> field of the node and nothing else
  in the store: every other field of the node and every other node stay as they are, no node
  is created (\<open>nextRef\<close> stays), and the anchor of the selection controller stays. The one
  event is the local \<open>dataChanged\<close>, fired when the node has a listener registry, with
  \<open>update\<close> false for \<open>setData\<close> and true for \<open>updateData\<close>.
\<close>

theorem setData_updateData_frame:
  "heap (setData g r d) = (heap g)(r := (heap g r)\<lparr>data := d\<rparr>)
   \<and> events (setData g r d) = events g @
        (if eventService (heap g r) \<noteq> None
         then [Local r EVENT_DATA_CHANGED (DataChangedEvent (data (heap g r)) d (Some False))] else [])
   \<and> nextRef (setData g r d) = nextRef g
   \<and> console (setData g r d) = console g
   \<and> lastSelectedNode (setData g r d) = lastSelectedNode g
   \<and> heap (updateData g r d) = (heap g)(r := (heap g r)\<lparr>data := d\<rparr>)
   \<and> events (updateData g r d) = events g @
        (if eventService (heap g r) \<noteq> None
         then [Local r EVENT_DATA_CHANGED (DataChangedEvent (data (heap g r)) d (Some True))] else [])
   \<and> nextRef (updateData g r d) = nextRef g
   \<and> console (updateData g r d) = console g
   \<and> lastSelectedNode (updateData g r d) = lastSelectedNode g"
  by (simp add: setData_def updateData_def Let_def)

theorem setData_updateData_frame_witness:
  "heap (setData ex_grid 0 (Some [(''a'', JNum 2)])) 0 = ex_node\<lparr>data := Some [(''a'', JNum 2)]\<rparr>
   \<and> events (setData ex_grid 0 (Some [(''a'', JNum 2)])) =
        [Local 0 EVENT_DATA_CHANGED
           (DataChangedEvent (Some [(''a'', JNum 1)]) (Some [(''a'', JNum 2)]) (Some False))]
   \<and> events (updateData ex_grid 0 (Some [(''a'', JNum 2)])) =
        [Local 0 EVENT_DATA_CHANGED
           (DataChangedEvent (Some [(''a'', JNum 1)]) (Some [(''a'', JNum 2)]) (Some True))]
   \<and> nextRef (setData ex_grid 0 (Some [(''a'', JNum 2)])) = 1"
  using setData_updateData_frame [of ex_grid 0 "Some [(''a'', JNum 2)]"]
  by (simp add: ex_grid_def ex_node_def new_RowNode_def)

section \<open>Aggregate data and cell-changed events\<close>

lemma fold_dispatchCellChangedEvent:
  "eventService (heap g r) \<noteq> None \<Longrightarrow>
   fold (\<lambda>colId g'. dispatchCellChangedEvent g' r (col colId)
           (case data (heap g' r) of Some d \<Rightarrow> get_prop d colId | None \<Rightarrow> None)) colIds g
   = g\<lparr>events := events g @
         map (\<lambda>colId. Local r EVENT_CELL_CHANGED
                 (CellChangedEvent (col colId)
                    (case data (heap g r) of Some d \<Rightarrow> get_prop d colId | None \<Rightarrow> None))) colIds\<rparr>"
proof (induction colIds arbitrary: g)
  case Nil
  then show ?case by simp
next
  case (Cons c cs)
  let ?g1 = "dispatchCellChangedEvent g r (col c)
           (case data (heap g r) of Some d \<Rightarrow> get_prop d c | None \<Rightarrow> None)"
  have h: "heap ?g1 = heap g" by (simp add: dispatchCellChangedEvent_def)
  have "eventService (heap ?g1 r) \<noteq> None" using Cons.prems by (simp add: h)
  from Cons.IH [OF this] Cons.prems show ?case
    by (simp add: h) (simp add: dispatchCellChangedEvent_def dispatchLocalEvent_def local_dispatchEvent_def)
qed

text \<open>
  C7. \<open>setAggData\<close> stores the new aggregate data. When the node has a listener registry
  it fires, after the events already there, one \<open>cellChanged\<close> event for each column id
  that \<open>getAllKeysInObjects\<close> returns, carrying the column and the value that the node's
  \<open>data\<close> has for that column id (not the aggregate); without a registry it fires none.
  The column ids are pairwise distinct and are exactly the keys of the old or of the new
  aggregate data.
\<close>

theorem setAggData_events:
  "aggData (heap (setAggData e g r newAggData) r) = newAggData
   \<and> events (setAggData e g r newAggData) = events g @
       (if eventService (heap g r) \<noteq> None
        then map (\<lambda>colId. Local r EVENT_CELL_CHANGED
                    (CellChangedEvent (getGridColumn e colId)
                       (case data (heap g r) of Some d \<Rightarrow> get_prop d colId | None \<Rightarrow> None)))
               (getAllKeysInObjects [aggData (heap g r), newAggData])
        else [])
   \<and> distinct (getAllKeysInObjects [aggData (heap g r), newAggData])
   \<and> set (getAllKeysInObjects [aggData (heap g r), newAggData])
       = set (Object_keys (aggData (heap g r))) \<union> set (Object_keys newAggData)"
proof -
  let ?g1 = "update_node g r (\<lambda>n. n\<lparr>aggData := newAggData\<rparr>)"
  have keys: "distinct (getAllKeysInObjects [aggData (heap g r), newAggData])"
    "set (getAllKeysInObjects [aggData (heap g r), newAggData])
       = set (Object_keys (aggData (heap g r))) \<union> set (Object_keys newAggData)"
    by (auto simp add: getAllKeysInObjects_def)
  show ?thesis
  proof (cases "eventService (heap g r) = None")
    case True
    then show ?thesis using keys by (simp add: setAggData_def Let_def update_node_def)
  next
    case False
    then have reg: "eventService (heap ?g1 r) \<noteq> None" by (simp add: update_node_def)
    show ?thesis
      using keys False
      by (simp add: setAggData_def Let_def fold_dispatchCellChangedEvent [OF reg])
  qed
qed

text \<open>The scenario of C7: after \<open>setAggData({a:1, b:2})\<close>, the call \<open>setAggData({a:1})\<close>
  fires exactly two events, for the columns a and b.\<close>

theorem setAggData_events_witness:
  "events (setAggData ex_env ex_grid_agg 0 (Some [(''a'', JNum 1)])) = events ex_grid_agg @
     [Local 0 EVENT_CELL_CHANGED (CellChangedEvent (Some (Column ''a'')) (Some (JNum 7))),
      Local 0 EVENT_CELL_CHANGED (CellChangedEvent (Some (Column ''b'')) None)]"
proof -
  have h: "heap ex_grid_agg 0 = new_RowNode\<lparr>data := Some [(''a'', JNum 7)],
      eventService := Some [], aggData := Some [(''a'', JNum 1), (''b'', JNum 2)]\<rparr>"
    by (simp add: ex_grid_agg_def setAggData_def Let_def update_node_def new_RowNode_def
        getAllKeysInObjects_def Object_keys_def dispatchCellChangedEvent_def
        dispatchLocalEvent_def local_dispatchEvent_def)
  from setAggData_events [of ex_env ex_grid_agg 0 "Some [(''a'', JNum 1)]"]
  show ?thesis
    by (simp add: h getAllKeysInObjects_def Object_keys_def get_prop_def ex_env_def new_RowNode_def)
qed

section \<open>A new identity leaves a daemon behind\<close>

lemma createDaemonNode_eq:
  "r \<noteq> nextRef g \<Longrightarrow>
   createDaemonNode g r =
     (nextRef g,
      g\<lparr>heap := (heap g)(nextRef g := new_RowNode\<lparr>id_node := id_node (heap g r),
                    data := data (heap g r), daemon := True, selected := selected (heap g r),
                    level := level (heap g r)\<rparr>),
        nextRef := Suc (nextRef g)\<rparr>)"
  by (simp add: createDaemonNode_def Let_def update_node_def new_RowNode_def)

text \<open>
  C8. Let the node \<open>r\<close> be an allocated node whose id exists, in a grid without an id
  resolver. Then \<open>setDataAndId(d, i)\<close> hands to \<open>syncInRowNode\<close> the live node and a new
  node, the daemon, in a store where the daemon is a fresh node carrying the id, data,
  selected state and level that \<open>r\<close> had, with \<open>daemon = true\<close>, and where \<open>r\<close> has the data
  \<open>d\<close> and the id \<open>i\<close> and is otherwise as before; on the grid that \<open>syncInRowNode\<close> returns
  it fires the local \<open>dataChanged\<close> event with the old and the new data.
\<close>

theorem setDataAndId_daemon:
  assumes "utils_exists e (id_node (heap g r))"
    and "getRowNodeIdFunc e = None"
    and "r < nextRef g"
  shows "setDataAndId e g r d i =
           dispatchLocalEvent
             (syncInRowNode e
                (g\<lparr>heap := (heap g)
                       (nextRef g := new_RowNode\<lparr>id_node := id_node (heap g r),
                          data := data (heap g r), daemon := True,
                          selected := selected (heap g r), level := level (heap g r)\<rparr>,
                        r := (heap g r)\<lparr>data := d, id_node := i\<rparr>),
                    nextRef := Suc (nextRef g)\<rparr>)
                r (Some (nextRef g)))
             r EVENT_DATA_CHANGED (DataChangedEvent (data (heap g r)) d None)"
proof -
  have neq: "r \<noteq> nextRef g" using assms(3) by simp
  let ?daemon = "new_RowNode\<lparr>id_node := id_node (heap g r), data := data (heap g r),
      daemon := True, selected := selected (heap g r), level := level (heap g r)\<rparr>"
  have "setId e (update_node (snd (createDaemonNode g r)) r (\<lambda>n. n\<lparr>data := d\<rparr>)) r i
        = g\<lparr>heap := (heap g)(nextRef g := ?daemon, r := (heap g r)\<lparr>data := d, id_node := i\<rparr>),
             nextRef := Suc (nextRef g)\<rparr>"
    using assms(2) neq
    by (cases g) (simp add: createDaemonNode_eq setId_def update_node_def)
  then show ?thesis
    using assms(1) neq
    by (simp add: setDataAndId_def createDaemonNode_eq Let_def)
qed

text \<open>The scenario of C8, with a \<open>syncInRowNode\<close> that leaves the store alone: the node
  with id 5, selected, gets the id 7 and new data; the daemon keeps the id 5, the old data
  and the selection.\<close>

theorem setDataAndId_daemon_witness:
  "heap (setDataAndId ex_env ex_grid 0 (Some [(''a'', JNum 2)]) (Some ''7'')) 0
     = ex_node\<lparr>data := Some [(''a'', JNum 2)], id_node := Some ''7''\<rparr>
   \<and> heap (setDataAndId ex_env ex_grid 0 (Some [(''a'', JNum 2)]) (Some ''7'')) 1
     = new_RowNode\<lparr>id_node := Some ''5'', data := Some [(''a'', JNum 1)], daemon := True,
         selected := Some True, level := Val 0\<rparr>
   \<and> events (setDataAndId ex_env ex_grid 0 (Some [(''a'', JNum 2)]) (Some ''7''))
     = [Local 0 EVENT_DATA_CHANGED
          (DataChangedEvent (Some [(''a'', JNum 1)]) (Some [(''a'', JNum 2)]) None)]"
proof -
  have hyps: "utils_exists ex_env (id_node (heap ex_grid 0))" "getRowNodeIdFunc ex_env = None"
    "0 < nextRef ex_grid"
    by (simp_all add: ex_env_def ex_grid_def ex_node_def new_RowNode_def)
  have sync: "syncInRowNode ex_env = (\<lambda>g r oldNode. g)"
    by (simp add: ex_env_def)
  show ?thesis
    unfolding setDataAndId_daemon [OF hyps] sync
    by (simp add: ex_grid_def ex_node_def new_RowNode_def)
qed

section \<open>The selection of a group, from its children\<close>

lemma childStates_flags:
  assumes "\<forall>c\<in>set cs. isSelected h c = Some (Inr (st c))"
  shows "childStates h (s, d, m) cs =
           Some (Inr (s \<or> (\<exists>c\<in>set cs. st c = Some True),
                      d \<or> (\<exists>c\<in>set cs. st c = Some False),
                      m \<or> (\<exists>c\<in>set cs. st c = None)))"
  using assms
proof (induction cs arbitrary: s d m)
  case Nil
  then show ?case by simp
next
  case (Cons c cs)
  have c: "isSelected h c = Some (Inr (st c))"
    and rest: "\<forall>x\<in>set cs. isSelected h x = Some (Inr (st x))"
    using Cons.prems by simp_all
  show ?case
  proof (cases "st c")
    case None
    then show ?thesis using c Cons.IH [OF rest] by simp
  next
    case (Some b)
    then show ?thesis using c Cons.IH [OF rest] by (cases b) auto
  qed
qed

text \<open>
  C1. Let every child in \<open>childrenAfterGroup\<close> of the node \<open>r\<close> answer \<open>isSelected()\<close>, the
  child \<open>c\<close> with \<open>st c\<close>. Then \<open>calculateSelectedFromChildren\<close> returns, the grid it leaves
  is the one \<open>selectThisNode\<close> leaves for the new value, and the new value of the node's
  \<open>selected\<close> is: \<open>undefined\<close> if some child answered \<open>undefined\<close> (mixed); else \<open>true\<close> if some
  child answered \<open>true\<close> and none \<open>false\<close>; else \<open>false\<close> if some child answered \<open>false\<close> and
  none \<open>true\<close>; else \<open>undefined\<close>, which is the case of a node without children.
\<close>

theorem calculateSelectedFromChildren_value:
  assumes "\<forall>c\<in>set (children_of g r). isSelected (heap g) c = Some (Inr (st c))"
  shows "\<exists>g'. calculateSelectedFromChildren g r = Some (Inr g')
           \<and> g' = snd (selectThisNode g r (selected (heap g' r)))
           \<and> selected (heap g' r) =
               (if \<exists>c\<in>set (children_of g r). st c = None then None
                else if (\<exists>c\<in>set (children_of g r). st c = Some True)
                        \<and> \<not> (\<exists>c\<in>set (children_of g r). st c = Some False) then Some True
                else if (\<exists>c\<in>set (children_of g r). st c = Some False)
                        \<and> \<not> (\<exists>c\<in>set (children_of g r). st c = Some True) then Some False
                else None)
           \<and> (children_of g r = [] \<longrightarrow> selected (heap g' r) = None)"
proof (cases "childrenAfterGroup (heap g r)")
  case None
  then show ?thesis
    by (simp add: calculateSelectedFromChildren_def children_of_def)
next
  case (Some cs)
  then have cs: "children_of g r = cs" by (simp add: children_of_def)
  from assms have "\<forall>c\<in>set cs. isSelected (heap g) c = Some (Inr (st c))" by (simp add: cs)
  from childStates_flags [OF this, of False False False] Some show ?thesis
    by (simp add: calculateSelectedFromChildren_def cs)
qed

text \<open>GroupA of the example tree has one selected and one deselected leaf: it becomes
  mixed.\<close>

theorem calculateSelectedFromChildren_value_witness:
  "children_of ex_tree 1 = [2, 3]
   \<and> isSelected (heap ex_tree) 2 = Some (Inr (Some True))
   \<and> isSelected (heap ex_tree) 3 = Some (Inr (Some False))
   \<and> (\<exists>g'. calculateSelectedFromChildren ex_tree 1 = Some (Inr g') \<and> selected (heap g' 1) = None)"
proof -
  have kids: "children_of ex_tree 1 = [2, 3]"
    by (simp add: children_of_def ex_tree_def)
  have hyp: "\<forall>c\<in>set (children_of ex_tree 1).
      isSelected (heap ex_tree) c = Some (Inr (selected (heap ex_tree c)))"
    by (simp add: kids isSelected_not_footer ex_tree_def new_RowNode_def)
  have st: "selected (heap ex_tree 2) = Some True" "selected (heap ex_tree 3) = Some False"
    by (simp_all add: ex_tree_def new_RowNode_def)
  from calculateSelectedFromChildren_value [OF hyp] obtain g' where
    ret: "calculateSelectedFromChildren ex_tree 1 = Some (Inr g')"
    and val: "selected (heap g' 1) =
               (if \<exists>c\<in>set (children_of ex_tree 1). selected (heap ex_tree c) = None then None
                else if (\<exists>c\<in>set (children_of ex_tree 1). selected (heap ex_tree c) = Some True)
                        \<and> \<not> (\<exists>c\<in>set (children_of ex_tree 1). selected (heap ex_tree c) = Some False)
                     then Some True
                else if (\<exists>c\<in>set (children_of ex_tree 1). selected (heap ex_tree c) = Some False)
                        \<and> \<not> (\<exists>c\<in>set (children_of ex_tree 1). selected (heap ex_tree c) = Some True)
                     then Some False
                else None)"
    by blast
  have "selected (heap g' 1) = None"
    unfolding val kids by (simp add: st)
  moreover have "isSelected (heap ex_tree) 2 = Some (Inr (Some True))"
    "isSelected (heap ex_tree) 3 = Some (Inr (Some False))"
    by (simp_all add: isSelected_not_footer ex_tree_def new_RowNode_def)
  ultimately show ?thesis using ret kids by blast
qed

section \<open>Footers answer for their sibling\<close>

text \<open>The field \<open>selected\<close> of a footer is never read by \<open>isSelected\<close>, whichever node is
  asked: first for the calls that return, then for all.\<close>

lemma isSelected_ignores_footer_field_returns:
  assumes "isSelected h x = Some y"
  shows "\<forall>f v. footer (h f) \<longrightarrow> isSelected (h(f := (h f)\<lparr>selected := v\<rparr>)) x = Some y"
proof (rule isSelected.raw_induct
    [where P = "\<lambda>h x y. \<forall>f v. footer (h f) \<longrightarrow> isSelected (h(f := (h f)\<lparr>selected := v\<rparr>)) x = Some y",
     OF _ assms])
  fix isSel :: "(ref \<Rightarrow> RowNode) \<Rightarrow> ref \<Rightarrow> (error + bool option) option" and h r y
  assume IH: "\<And>h x y. isSel h x = Some y \<Longrightarrow>
               \<forall>f v. footer (h f) \<longrightarrow> isSelected (h(f := (h f)\<lparr>selected := v\<rparr>)) x = Some y"
    and body: "(if footer (h r)
      then case sibling (h r) of None \<Rightarrow> Some (Inl TypeError) | Some s \<Rightarrow> isSel h s
      else Some (Inr (selected (h r)))) = Some y"
  show "\<forall>f v. footer (h f) \<longrightarrow> isSelected (h(f := (h f)\<lparr>selected := v\<rparr>)) r = Some y"
  proof (intro allI impI)
    fix f v assume foot: "footer (h f)"
    let ?h = "h(f := (h f)\<lparr>selected := v\<rparr>)"
    have same: "footer (?h r) = footer (h r)" "sibling (?h r) = sibling (h r)"
      by auto
    show "isSelected ?h r = Some y"
    proof (cases "footer (h r)")
      case True
      show ?thesis
      proof (cases "sibling (h r)")
        case None
        with body True same show ?thesis by (subst isSelected.simps) simp
      next
        case (Some s)
        from body True Some have "isSel h s = Some y" by simp
        from IH [OF this] foot have "isSelected ?h s = Some y" by blast
        with True Some same show ?thesis by (subst isSelected.simps) simp
      qed
    next
      case False
      then have "r \<noteq> f" using foot by auto
      with False body show ?thesis by (subst isSelected.simps) simp
    qed
  qed
qed

lemma isSelected_ignores_footer_field:
  assumes "footer (h f)"
  shows "isSelected (h(f := (h f)\<lparr>selected := v\<rparr>)) x = isSelected h x"
proof -
  let ?h = "h(f := (h f)\<lparr>selected := v\<rparr>)"
  have restore: "?h(f := (?h f)\<lparr>selected := selected (h f)\<rparr>) = h"
    by (rule ext) simp
  have foot': "footer (?h f)" using assms by simp
  show ?thesis
  proof (cases "isSelected h x")
    case None
    show ?thesis
    proof (cases "isSelected ?h x")
      case None
      with \<open>isSelected h x = None\<close> show ?thesis by simp
    next
      case (Some y)
      from isSelected_ignores_footer_field_returns [OF Some] foot'
      have "isSelected (?h(f := (?h f)\<lparr>selected := selected (h f)\<rparr>)) x = Some y" by blast
      with restore None show ?thesis by simp
    qed
  next
    case (Some y)
    from isSelected_ignores_footer_field_returns [OF Some] assms show ?thesis
      using Some by simp
  qed
qed

lemma setSelectedParams_footer:
  "id_node (heap g f) \<noteq> None \<Longrightarrow> \<not> truthy_string (floating (heap g f)) \<Longrightarrow>
   footer (heap g f) \<Longrightarrow> sibling (heap g f) = Some s \<Longrightarrow>
   setSelectedParams (Suc fuel) e g f params = setSelectedParams fuel e g s params"
  by (simp add: setSelectedParams_body_def Let_def del: not_None_eq)

subsection \<open>Selecting changes selection state only\<close>

lemma shape_simps [simp]:
  "shape (update_node g r (\<lambda>n. n\<lparr>selected := v\<rparr>)) = shape g"
  "shape (local_dispatchEvent g r n p) = shape g"
  "shape (main_dispatchEvent g ev p) = shape g"
  "shape (dispatchLocalEvent g r n p) = shape g"
  "shape (g\<lparr>lastSelectedNode := a\<rparr>) = shape g"
  "shape (g\<lparr>console := c\<rparr>) = shape g"
  by (auto simp add: shape_def fun_eq_iff)

lemma shape_selectThisNode [simp]: "shape (snd (selectThisNode g r v)) = shape g"
  by (simp add: selectThisNode_def Let_def)

lemma shape_calculateSelectedFromChildren:
  "calculateSelectedFromChildren g r = Some (Inr g') \<Longrightarrow> shape g' = shape g"
  by (auto simp add: calculateSelectedFromChildren_def dest!: bind_res_Inr split: prod.splits)

lemma shape_BubbleUp:
  assumes "calculateSelectedFromChildrenBubbleUp g r = Some y"
  shows "\<forall>g'. y = Inr g' \<longrightarrow> shape g' = shape g"
proof (rule calculateSelectedFromChildrenBubbleUp.raw_induct
    [where P = "\<lambda>g r y. \<forall>g'. y = Inr g' \<longrightarrow> shape g' = shape g", OF _ assms])
  fix bubble :: "grid \<Rightarrow> ref \<Rightarrow> (error + grid) option" and g r y
  assume IH: "\<And>g r y. bubble g r = Some y \<Longrightarrow> \<forall>g'. y = Inr g' \<longrightarrow> shape g' = shape g"
    and body: "(case calculateSelectedFromChildren g r of None \<Rightarrow> None
      | Some (Inl e) \<Rightarrow> Some (Inl e)
      | Some (Inr g1) \<Rightarrow>
          (case parent (heap g1 r) of None \<Rightarrow> Some (Inr g1)
           | Some p \<Rightarrow> bubble g1 p)) = Some y"
  show "\<forall>g'. y = Inr g' \<longrightarrow> shape g' = shape g"
    using body
    by (auto split: option.splits sum.splits dest!: IH shape_calculateSelectedFromChildren)
qed

lemma forEach_preserves:
  assumes "\<And>s x s'. f s x = Some (Inr s') \<Longrightarrow> obs s' = obs s"
    and "forEach f s xs = Some (Inr s')"
  shows "obs s' = obs s"
  using assms(2)
proof (induction xs arbitrary: s)
  case Nil
  then show ?case by simp
next
  case (Cons x xs)
  from Cons.prems obtain s1 where 1: "f s x = Some (Inr s1)" and 2: "forEach f s1 xs = Some (Inr s')"
    by (auto dest!: bind_res_Inr)
  from Cons.IH [OF 2] assms(1) [OF 1] show ?case by simp
qed

lemma shape_depthFirstSearch:
  assumes cb: "\<And>g r g'. callback g r = Some (Inr g') \<Longrightarrow> shape g' = shape g"
  shows "depthFirstSearch fuel callback g r = Some (Inr g') \<Longrightarrow> shape g' = shape g"
proof (induction fuel arbitrary: g r g')
  case 0
  then show ?case by simp
next
  case (Suc fuel)
  from Suc.prems obtain g1 where
    1: "(case childrenAfterGroup (heap g r) of None \<Rightarrow> Some (Inr g)
          | Some cs \<Rightarrow> forEach (depthFirstSearch fuel callback) g cs) = Some (Inr g1)"
    and 2: "callback g1 r = Some (Inr g')"
    by (auto dest!: bind_res_Inr)
  have "shape g1 = shape g"
  proof (cases "childrenAfterGroup (heap g r)")
    case None
    with 1 show ?thesis by simp
  next
    case (Some cs)
    with 1 have "forEach (depthFirstSearch fuel callback) g cs = Some (Inr g1)" by simp
    then show ?thesis by (rule forEach_preserves [where obs = shape, rotated]) (rule Suc.IH)
  qed
  with cb [OF 2] show ?case by simp
qed

lemma shape_calculatedSelectedForAllGroupNodes:
  assumes "calculatedSelectedForAllGroupNodes fuel e g = Some (Inr g')"
  shows "shape g' = shape g"
  using assms unfolding calculatedSelectedForAllGroupNodes_def
proof (rule forEach_preserves [where obs = shape, rotated])
  fix s x s'
  assume "(if group_node (heap s x)
         then bind_res
               (depthFirstSearch fuel
                 (\<lambda>g' childNode.
                     if group_node (heap g' childNode)
                     then calculateSelectedFromChildren g' childNode
                     else Some (Inr g'))
                 s x)
               (\<lambda>g1. calculateSelectedFromChildren g1 x)
         else Some (Inr s)) = Some (Inr s')"
  then show "shape s' = shape s"
    by (auto split: if_splits dest!: bind_res_Inr shape_calculateSelectedFromChildren
        dest!: shape_depthFirstSearch [rotated])
qed

lemma shape_doRowRangeSelection_callback:
  assumes "doRowRangeSelection_callback gsc lastSel this w x = Some (Inr w')"
  shows "shape (walk_grid w') = shape (walk_grid w)"
  using assms
  by (auto simp add: doRowRangeSelection_callback_def Let_def selectThisNode_def
      split: if_splits option.splits prod.splits dest!: bind_res_Inr)

lemma shape_doRowRangeSelection:
  assumes "doRowRangeSelection fuel e g this = Some (Inr (c, g'))"
  shows "shape g' = shape g"
proof -
  from assms obtain w g1 where
    w: "forEach (doRowRangeSelection_callback (isGroupSelectsChildren e) (lastSelectedNode g) this)
          \<lparr>firstRowHit = (lastSelectedNode g = None), lastRowHit = False, lastRow = None,
           updatedCount = Num 0, walk_grid = g\<rparr> (forEachNodeAfterFilterAndSort e) = Some (Inr w)"
    and g1: "(if isGroupSelectsChildren e
              then calculatedSelectedForAllGroupNodes fuel e (walk_grid w)
              else Some (Inr (walk_grid w))) = Some (Inr g1)"
    and g': "g' = main_dispatchEvent g1 Events_EVENT_SELECTION_CHANGED NoEvent"
    by (auto simp add: doRowRangeSelection_def Let_def dest!: bind_res_Inr)
  from w have "shape (walk_grid w) = shape g"
    by (auto dest!: forEach_preserves [where obs = "\<lambda>w. shape (walk_grid w)", rotated]
        shape_doRowRangeSelection_callback)
  moreover from g1 have "shape g1 = shape (walk_grid w)"
    by (auto split: if_splits dest!: shape_calculatedSelectedForAllGroupNodes)
  ultimately show ?thesis by (simp add: g')
qed

lemma shape_selectChildNodes:
  assumes rec: "\<And>g r p c g'. rec g r p = Some (Inr (c, g')) \<Longrightarrow> shape g' = shape g"
    and "selectChildNodes rec e g r v f = Some (Inr (c, g'))"
  shows "shape g' = shape g"
proof -
  let ?step = "\<lambda>(count, g') child.
              bind_res (rec g' child
                  \<lparr>newValue = Some v, clearSelection = Some False,
                   tailingNodeInSequence = Some True, rangeSelect = None,
                   groupSelectsFiltered = None\<rparr>)
                (\<lambda>(c, g''). Some (Inr (js_add count c, g'')))"
  have step: "\<And>s x s'. ?step s x = Some (Inr s') \<Longrightarrow> shape (snd s') = shape (snd s)"
    by (auto dest!: bind_res_Inr rec split: prod.splits)
  have loop: "\<And>cs. forEach ?step (Num 0, g) cs = Some (Inr (c, g')) \<Longrightarrow> shape g' = shape g"
    using forEach_preserves [where f = ?step and obs = "\<lambda>s. shape (snd s)", OF step]
    by fastforce
  from assms(2) show ?thesis
    by (auto simp add: selectChildNodes_def Let_def split: if_splits option.splits dest: loop)
qed

lemma shape_setSelectedParams_body:
  assumes rec: "\<And>g r p c g'. rec g r p = Some (Inr (c, g')) \<Longrightarrow> shape g' = shape g"
    and clear: "\<And>g r c g'. clearOtherNodes e g r = Some (Inr (c, g')) \<Longrightarrow> shape g' = shape g"
    and "setSelectedParams_body fuel rec e g this params = Some (Inr (c, g'))"
  shows "shape g' = shape g"
proof -
  have sc: "\<And>g r v f c g'. selectChildNodes rec e g r v f = Some (Inr (c, g')) \<Longrightarrow> shape g' = shape g"
    by (rule shape_selectChildNodes) (rule rec)
  have bu: "\<And>g r g'. calculateSelectedFromChildrenBubbleUp g r = Some (Inr g') \<Longrightarrow> shape g' = shape g"
    using shape_BubbleUp by blast
  show ?thesis
    using assms(3) unfolding setSelectedParams_body_def Let_def
    by (auto split: if_splits option.splits prod.splits
        dest!: bind_res_Inr rec clear shape_doRowRangeSelection sc
          shape_calculatedSelectedForAllGroupNodes bu
        simp add: selectThisNode_def Let_def simp del: bind_res_simps)
qed

lemma shape_setSelectedParams:
  assumes clear: "\<And>g r c g'. clearOtherNodes e g r = Some (Inr (c, g')) \<Longrightarrow> shape g' = shape g"
  shows "setSelectedParams fuel e g this params = Some (Inr (c, g')) \<Longrightarrow> shape g' = shape g"
proof (induction fuel arbitrary: g this params c g')
  case 0
  then show ?case by simp
next
  case (Suc fuel)
  from Suc.prems have "setSelectedParams_body fuel (setSelectedParams fuel e) e g this params
      = Some (Inr (c, g'))" by simp
  then show ?case
    by (rule shape_setSelectedParams_body [rotated 2]) (rule Suc.IH, assumption, rule clear)
qed

lemma shape_footer_sibling:
  "shape g' = shape g \<Longrightarrow>
     footer (heap g' r) = footer (heap g r) \<and> sibling (heap g' r) = sibling (heap g r)"
proof -
  assume "shape g' = shape g"
  then have "shape g' r = shape g r" by simp
  then have "footer (shape g' r) = footer (shape g r)" "sibling (shape g' r) = sibling (shape g r)"
    by simp_all
  then show ?thesis by (simp add: shape_def)
qed

text \<open>
  C3, as the claim has it, fails for a footer that has no id: \<open>setSelectedParams\<close> rejects
  the footer itself and returns 0, where the same call on the sibling counts 1.
\<close>

theorem footer_without_id_counterexample:
  "footer (heap ex_grid_footer_noid 1) \<and> sibling (heap ex_grid_footer_noid 1) = Some 0
   \<and> map_res fst (setSelectedParams (Suc (Suc 0)) ex_env ex_grid_footer_noid 1
                     (setSelected_params (Some True) None None)) = Some (Inr (Num 0))
   \<and> map_res fst (setSelectedParams (Suc 0) ex_env ex_grid_footer_noid 0
                     (setSelected_params (Some True) None None)) = Some (Inr (Num 1))"
  by (simp add: setSelectedParams_body_def setSelected_params_def Let_def
      selectThisNode_def ex_env_def ex_grid_footer_noid_def new_RowNode_def
      update_node_def main_dispatchEvent_def dispatchLocalEvent_def)

text \<open>
  C3, amended. Let \<open>f\<close> be a footer with the sibling \<open>s\<close>. Then
  \<^item> \<open>isSelected()\<close> on \<open>f\<close> is \<open>isSelected()\<close> on \<open>s\<close>, and it does not depend on the field
    \<open>selected\<close> of \<open>f\<close>;
  \<^item> if \<open>f\<close> has an id and is not floating, \<open>setSelectedParams\<close> on \<open>f\<close> is the same call
    on \<open>s\<close> (one call deeper): the same count, the same grid, or the same failure;
  \<^item> after any call of \<open>setSelectedParams\<close> that returns, on whatever node, \<open>f\<close> is still a
    footer with the sibling \<open>s\<close> and \<open>isSelected()\<close> on \<open>f\<close> is \<open>isSelected()\<close> on \<open>s\<close>,
    provided that \<open>clearOtherNodes\<close> of the selection controller changes nothing in the
    nodes but their selection state.
\<close>

theorem footer_delegates_to_sibling:
  assumes "footer (heap g f)" and "sibling (heap g f) = Some s"
  shows "isSelected (heap g) f = isSelected (heap g) s
     \<and> isSelected ((heap g)(f := (heap g f)\<lparr>selected := v\<rparr>)) f = isSelected (heap g) f
     \<and> (id_node (heap g f) \<noteq> None \<and> \<not> truthy_string (floating (heap g f)) \<longrightarrow>
          setSelectedParams (Suc fuel) e g f params = setSelectedParams fuel e g s params)
     \<and> ((\<forall>g0 x0 c0 g1. clearOtherNodes e g0 x0 = Some (Inr (c0, g1)) \<longrightarrow> shape g1 = shape g0)
          \<and> setSelectedParams fuel' e g x params' = Some (Inr (c, g'))
        \<longrightarrow> footer (heap g' f) \<and> sibling (heap g' f) = Some s
            \<and> isSelected (heap g') f = isSelected (heap g') s)"
proof (intro conjI impI)
  show "isSelected (heap g) f = isSelected (heap g) s"
    using assms by (rule isSelected_footer)
  show "isSelected ((heap g)(f := (heap g f)\<lparr>selected := v\<rparr>)) f = isSelected (heap g) f"
    using assms(1) by (rule isSelected_ignores_footer_field)
next
  assume "id_node (heap g f) \<noteq> None \<and> \<not> truthy_string (floating (heap g f))"
  then have "id_node (heap g f) \<noteq> None" and "\<not> truthy_string (floating (heap g f))"
    by blast+
  then show "setSelectedParams (Suc fuel) e g f params = setSelectedParams fuel e g s params"
    using assms by (rule setSelectedParams_footer)
next
  assume a: "(\<forall>g0 x0 c0 g1. clearOtherNodes e g0 x0 = Some (Inr (c0, g1)) \<longrightarrow> shape g1 = shape g0)
          \<and> setSelectedParams fuel' e g x params' = Some (Inr (c, g'))"
  then have "shape g' = shape g"
    by (intro shape_setSelectedParams [of e fuel' g x params' c g']) blast+
  from shape_footer_sibling [OF this, of f] assms
  show "footer (heap g' f)" "sibling (heap g' f) = Some s"
    by simp_all
  then show "isSelected (heap g') f = isSelected (heap g') s"
    by (rule isSelected_footer)
qed

text \<open>Selecting through the footer of the example selects the group, and the footer then
  reports selected.\<close>

theorem footer_delegates_to_sibling_witness:
  "footer (heap ex_grid_footer 1) \<and> sibling (heap ex_grid_footer 1) = Some 0
   \<and> isSelected (heap ex_grid_footer) 1 = Some (Inr (Some False))
   \<and> setSelectedParams (Suc (Suc 0)) ex_env ex_grid_footer 1 (setSelected_params (Some True) None None)
       = Some (Inr (Num 1, ex_grid_footer_selected))
   \<and> isSelected (heap ex_grid_footer_selected) 1 = Some (Inr (Some True))"
proof -
  let ?p = "setSelected_params (Some True) None None"
  have foot: "footer (heap ex_grid_footer 1)" and sib: "sibling (heap ex_grid_footer 1) = Some 0"
    by (simp_all add: ex_grid_footer_def new_RowNode_def)
  have ok: "id_node (heap ex_grid_footer 1) \<noteq> None \<and> \<not> truthy_string (floating (heap ex_grid_footer 1))"
    by (simp add: ex_grid_footer_def new_RowNode_def)
  have clear: "\<forall>g0 x0 c0 g1. clearOtherNodes ex_env g0 x0 = Some (Inr (c0, g1)) \<longrightarrow> shape g1 = shape g0"
    by (simp add: ex_env_def)
  have group_call: "setSelectedParams (Suc 0) ex_env ex_grid_footer 0 ?p
      = Some (Inr (Num 1, ex_grid_footer_selected))"
    by (simp add: setSelectedParams_body_def setSelected_params_def Let_def
        selectThisNode_def ex_env_def ex_grid_footer_def ex_grid_footer_selected_def
        new_RowNode_def update_node_def main_dispatchEvent_def dispatchLocalEvent_def
        fun_eq_iff)
  have before: "isSelected (heap ex_grid_footer) 0 = Some (Inr (Some False))"
    by (simp add: isSelected_not_footer ex_grid_footer_def new_RowNode_def)
  have after: "isSelected (heap ex_grid_footer_selected) 0 = Some (Inr (Some True))"
    by (simp add: isSelected_not_footer ex_grid_footer_selected_def new_RowNode_def)
  note inst = footer_delegates_to_sibling [OF foot sib,
      of _ "Suc 0" ex_env ?p "Suc 0" 0 ?p "Num 1" ex_grid_footer_selected]
  from inst ok have call: "setSelectedParams (Suc (Suc 0)) ex_env ex_grid_footer 1 ?p
      = Some (Inr (Num 1, ex_grid_footer_selected))"
    using group_call by simp
  from inst clear group_call
  have "isSelected (heap ex_grid_footer_selected) 1 = isSelected (heap ex_grid_footer_selected) 0"
    by blast
  with inst foot sib before after call show ?thesis by simp
qed

section \<open>Range selection does not care which end is the anchor\<close>

text \<open>Nothing that the range selection runs looks at the anchor stored in the grid: each
  operation commutes with setting it.\<close>

lemma map_res_Inr: "map_res f m = Some (Inr v) \<Longrightarrow> \<exists>u. m = Some (Inr u) \<and> f u = v"
  by (cases m) (simp_all, rename_tac x, case_tac x, simp_all)

lemma selectThisNode_anchor:
  "selectThisNode (g\<lparr>lastSelectedNode := a\<rparr>) r v
     = apsnd (\<lambda>g. g\<lparr>lastSelectedNode := a\<rparr>) (selectThisNode g r v)"
  by (simp add: selectThisNode_def Let_def update_node_def dispatchLocalEvent_def
      local_dispatchEvent_def main_dispatchEvent_def)

lemma calculateSelectedFromChildren_anchor:
  "calculateSelectedFromChildren (g\<lparr>lastSelectedNode := a\<rparr>) r
     = map_res (\<lambda>g. g\<lparr>lastSelectedNode := a\<rparr>) (calculateSelectedFromChildren g r)"
proof (cases "childrenAfterGroup (heap g r)")
  case None
  then show ?thesis
    by (simp add: calculateSelectedFromChildren_def selectThisNode_anchor)
next
  case (Some cs)
  then show ?thesis
    by (simp add: calculateSelectedFromChildren_def map_res_bind_res)
       (rule bind_res_cong_fun, simp add: selectThisNode_anchor split: prod.splits)
qed

lemma forEach_commute:
  assumes "\<And>s x. f (u s) x = map_res u (f s x)"
  shows "forEach f (u s) xs = map_res u (forEach f s xs)"
proof (induction xs arbitrary: s)
  case Nil
  then show ?case by simp
next
  case (Cons x xs)
  show ?case
    by (simp add: assms Cons.IH bind_res_map_res map_res_bind_res)
qed

lemma depthFirstSearch_anchor:
  assumes "\<And>g r. callback (g\<lparr>lastSelectedNode := a\<rparr>) r
                   = map_res (\<lambda>g. g\<lparr>lastSelectedNode := a\<rparr>) (callback g r)"
  shows "depthFirstSearch fuel callback (g\<lparr>lastSelectedNode := a\<rparr>) r
           = map_res (\<lambda>g. g\<lparr>lastSelectedNode := a\<rparr>) (depthFirstSearch fuel callback g r)"
proof (induction fuel arbitrary: g r)
  case 0
  then show ?case by simp
next
  case (Suc fuel)
  have loop: "\<And>cs. forEach (depthFirstSearch fuel callback) (g\<lparr>lastSelectedNode := a\<rparr>) cs
      = map_res (\<lambda>g. g\<lparr>lastSelectedNode := a\<rparr>) (forEach (depthFirstSearch fuel callback) g cs)"
    by (rule forEach_commute) (rule Suc.IH)
  show ?case
    by (cases "childrenAfterGroup (heap g r)")
       (simp_all add: loop assms bind_res_map_res map_res_bind_res)
qed

lemma calculatedSelectedForAllGroupNodes_anchor:
  "calculatedSelectedForAllGroupNodes fuel e (g\<lparr>lastSelectedNode := a\<rparr>)
     = map_res (\<lambda>g. g\<lparr>lastSelectedNode := a\<rparr>) (calculatedSelectedForAllGroupNodes fuel e g)"
  unfolding calculatedSelectedForAllGroupNodes_def
proof (rule forEach_commute)
  fix s x
  let ?cb = "\<lambda>g' childNode. if group_node (heap g' childNode)
               then calculateSelectedFromChildren g' childNode else Some (Inr g')"
  have cb: "\<And>g r. ?cb (g\<lparr>lastSelectedNode := a\<rparr>) r
              = map_res (\<lambda>g. g\<lparr>lastSelectedNode := a\<rparr>) (?cb g r)"
    by (simp add: calculateSelectedFromChildren_anchor)
  show "(if group_node (heap (s\<lparr>lastSelectedNode := a\<rparr>) x)
         then bind_res (depthFirstSearch fuel ?cb (s\<lparr>lastSelectedNode := a\<rparr>) x)
                (\<lambda>g1. calculateSelectedFromChildren g1 x)
         else Some (Inr (s\<lparr>lastSelectedNode := a\<rparr>)))
      = map_res (\<lambda>g. g\<lparr>lastSelectedNode := a\<rparr>)
         (if group_node (heap s x)
          then bind_res (depthFirstSearch fuel ?cb s x) (\<lambda>g1. calculateSelectedFromChildren g1 x)
          else Some (Inr s))"
    by (simp add: depthFirstSearch_anchor [of ?cb, OF cb] bind_res_map_res map_res_bind_res
        calculateSelectedFromChildren_anchor)
qed

lemma doRowRangeSelection_callback_anchor:
  "doRowRangeSelection_callback gsc ls this (w\<lparr>walk_grid := (walk_grid w)\<lparr>lastSelectedNode := a\<rparr>\<rparr>) x
     = map_res (\<lambda>w. w\<lparr>walk_grid := (walk_grid w)\<lparr>lastSelectedNode := a\<rparr>\<rparr>)
         (doRowRangeSelection_callback gsc ls this w x)"
  by (simp add: doRowRangeSelection_callback_def Let_def selectThisNode_anchor case_prod_beta
      split: option.splits)

text \<open>The callback asks of a row only whether it is one of the two ends.\<close>

lemma doRowRangeSelection_callback_sym:
  "doRowRangeSelection_callback gsc (Some A) B w x = doRowRangeSelection_callback gsc (Some B) A w x"
  by (auto simp add: doRowRangeSelection_callback_def Let_def bind_res_def
      split: prod.splits option.splits sum.splits)

lemma doRowRangeSelection_sym:
  "map_res (\<lambda>(c, g'). (c, heap g', events g', console g', nextRef g'))
     (doRowRangeSelection fuel e (g\<lparr>lastSelectedNode := Some A\<rparr>) B)
   = map_res (\<lambda>(c, g'). (c, heap g', events g', console g', nextRef g'))
     (doRowRangeSelection fuel e (g\<lparr>lastSelectedNode := Some B\<rparr>) A)"
proof -
  let ?gsc = "isGroupSelectsChildren e"
  let ?w0 = "\<lparr>firstRowHit = False, lastRowHit = False, lastRow = None,
              updatedCount = Num 0, walk_grid = g\<rparr>"
  let ?obs = "\<lambda>(c, g'). (c, heap g', events g', console g', nextRef g')"
  let ?core = "\<lambda>a. bind_res (forEach (doRowRangeSelection_callback ?gsc (Some A) B) ?w0
                            (forEachNodeAfterFilterAndSort e))
           (\<lambda>w. bind_res (if ?gsc
                           then calculatedSelectedForAllGroupNodes fuel e (walk_grid w)
                           else Some (Inr (walk_grid w)))
                  (\<lambda>g1. Some (Inr (updatedCount w,
                        (main_dispatchEvent g1 Events_EVENT_SELECTION_CHANGED NoEvent)\<lparr>lastSelectedNode := a\<rparr>))))"
  have walk: "\<And>a ls this. forEach (doRowRangeSelection_callback ?gsc ls this)
                 (?w0\<lparr>walk_grid := (walk_grid ?w0)\<lparr>lastSelectedNode := a\<rparr>\<rparr>)
                 (forEachNodeAfterFilterAndSort e)
           = map_res (\<lambda>w. w\<lparr>walk_grid := (walk_grid w)\<lparr>lastSelectedNode := a\<rparr>\<rparr>)
               (forEach (doRowRangeSelection_callback ?gsc ls this) ?w0
                  (forEachNodeAfterFilterAndSort e))"
    by (rule forEach_commute) (rule doRowRangeSelection_callback_anchor)
  have sym: "doRowRangeSelection_callback ?gsc (Some B) A = doRowRangeSelection_callback ?gsc (Some A) B"
    by (intro ext) (rule doRowRangeSelection_callback_sym)
  have run: "\<And>a. a = Some A \<or> a = Some B \<Longrightarrow>
      doRowRangeSelection fuel e (g\<lparr>lastSelectedNode := a\<rparr>) (if a = Some A then B else A) = ?core a"
    using walk [simplified]
    by (auto simp add: doRowRangeSelection_def Let_def sym bind_res_map_res
        calculatedSelectedForAllGroupNodes_anchor map_res_bind_res main_dispatchEvent_def
        intro!: bind_res_cong_fun)
  have obs: "\<And>a. map_res ?obs (?core a) = map_res ?obs (?core None)"
    by (simp add: map_res_bind_res)
  show ?thesis
  proof (cases "A = B")
    case True
    then show ?thesis by simp
  next
    case False
    from run [of "Some A"] run [of "Some B"] False obs [of "Some A"] obs [of "Some B"]
    show ?thesis by simp
  qed
qed

text \<open>When \<open>setSelectedParams\<close> is the range selection: a range request on a node that
  passes the guards and is not the anchor, in a normal row model with multi-selection.\<close>

lemma setSelectedParams_range_select:
  assumes "id_node (heap g r) \<noteq> None" and "\<not> truthy_string (floating (heap g r))"
    and "\<not> footer (heap g r)" and "rangeSelect params = Some True"
    and "rowModelNormal e" and "isRowSelectionMulti e" and "lastSelectedNode g \<noteq> Some r"
  shows "setSelectedParams (Suc fuel) e g r params = doRowRangeSelection fuel e g r"
  using assms by (simp add: setSelectedParams_body_def Let_def del: not_None_eq)

text \<open>
  C6. Run the range selection on the same grid twice, once with \<open>A\<close> as the anchor and \<open>B\<close>
  as the clicked node and once with \<open>B\<close> as the anchor and \<open>A\<close> as the clicked node, over
  the same traversal order. Either both runs fail to return, or both throw, or both
  return, and then with the same count, the same store of nodes, hence the same set of nodes
  with \<open>selected = true\<close>, and the same events. These two runs are what
  \<open>setSelectedParams\<close> does on a range request when \<open>A\<close> and \<open>B\<close> are distinct nodes with
  an id, neither floating nor a footer, in a normal row model with multi-selection.
\<close>

theorem doRowRangeSelection_symmetric:
  "map_res (\<lambda>(c, g'). (c, heap g', events g'))
     (doRowRangeSelection fuel e (g\<lparr>lastSelectedNode := Some A\<rparr>) B)
   = map_res (\<lambda>(c, g'). (c, heap g', events g'))
     (doRowRangeSelection fuel e (g\<lparr>lastSelectedNode := Some B\<rparr>) A)
   \<and> map_res (\<lambda>(c, g'). selectedNodes g')
     (doRowRangeSelection fuel e (g\<lparr>lastSelectedNode := Some A\<rparr>) B)
   = map_res (\<lambda>(c, g'). selectedNodes g')
     (doRowRangeSelection fuel e (g\<lparr>lastSelectedNode := Some B\<rparr>) A)
   \<and> (A \<noteq> B \<and> rangeSelect params = Some True \<and> rowModelNormal e \<and> isRowSelectionMulti e
        \<and> id_node (heap g A) \<noteq> None \<and> id_node (heap g B) \<noteq> None
        \<and> \<not> truthy_string (floating (heap g A)) \<and> \<not> truthy_string (floating (heap g B))
        \<and> \<not> footer (heap g A) \<and> \<not> footer (heap g B)
      \<longrightarrow> setSelectedParams (Suc fuel) e (g\<lparr>lastSelectedNode := Some A\<rparr>) B params
            = doRowRangeSelection fuel e (g\<lparr>lastSelectedNode := Some A\<rparr>) B
          \<and> setSelectedParams (Suc fuel) e (g\<lparr>lastSelectedNode := Some B\<rparr>) A params
            = doRowRangeSelection fuel e (g\<lparr>lastSelectedNode := Some B\<rparr>) A)"
proof -
  let ?X = "doRowRangeSelection fuel e (g\<lparr>lastSelectedNode := Some A\<rparr>) B"
  let ?Y = "doRowRangeSelection fuel e (g\<lparr>lastSelectedNode := Some B\<rparr>) A"
  let ?obs = "\<lambda>(c, g'). (c, heap g', events g', console g', nextRef g')"
  have eq: "map_res ?obs ?X = map_res ?obs ?Y"
    by (rule doRowRangeSelection_sym)
  have 1: "\<And>m. map_res (\<lambda>(c, g'). (c, heap g', events g')) m
             = map_res (\<lambda>(c, h, ev, co, n). (c, h, ev)) (map_res ?obs m)"
    by (case_tac m) (simp_all, rename_tac x, case_tac x, simp_all add: case_prod_beta)
  have 2: "\<And>m. map_res (\<lambda>(c, g'). selectedNodes g') m
             = map_res (\<lambda>(c, h, ev, co, n). {r. selected (h r) = Some True}) (map_res ?obs m)"
    by (case_tac m)
       (simp_all, rename_tac x, case_tac x, simp_all add: case_prod_beta selectedNodes_def)
  have 3: "setSelectedParams (Suc fuel) e (g\<lparr>lastSelectedNode := Some a\<rparr>) b params
            = doRowRangeSelection fuel e (g\<lparr>lastSelectedNode := Some a\<rparr>) b"
    if "a \<noteq> b" "rangeSelect params = Some True" "rowModelNormal e" "isRowSelectionMulti e"
      "id_node (heap g b) \<noteq> None" "\<not> truthy_string (floating (heap g b))" "\<not> footer (heap g b)"
    for a b
    using that by (intro setSelectedParams_range_select) simp_all
  show ?thesis
    unfolding 1 2 eq using 3 [of A B] 3 [of B A] by auto
qed

text \<open>The five rows of the spec's scenario, the second one selected: with the fourth as the
  anchor and a range request on the second, the rows two to four end up selected and two rows
  are counted, as with the second as the anchor and the fourth clicked.\<close>

theorem doRowRangeSelection_symmetric_witness:
  "map_res (\<lambda>(c, g'). (c, map (\<lambda>r. selected (heap g' r)) [0, 1, 2, 3, 4]))
     (setSelectedParams (Suc 0) ex_env5 (ex_grid5\<lparr>lastSelectedNode := Some 3\<rparr>) 1 ex_range_params)
   = Some (Inr (Num 2, [Some False, Some True, Some True, Some True, Some False]))"
proof -
  let ?X = "doRowRangeSelection 0 ex_env5 (ex_grid5\<lparr>lastSelectedNode := Some 1\<rparr>) 3"
  let ?Y = "doRowRangeSelection 0 ex_env5 (ex_grid5\<lparr>lastSelectedNode := Some 3\<rparr>) 1"
  let ?h = "(\<lambda>_. new_RowNode)
            (0 := new_RowNode\<lparr>id_node := Some ''n1''\<rparr>,
             1 := new_RowNode\<lparr>id_node := Some ''n2'', selected := Some True\<rparr>,
             2 := new_RowNode\<lparr>id_node := Some ''n3'', selected := Some True\<rparr>,
             3 := new_RowNode\<lparr>id_node := Some ''n4'', selected := Some True\<rparr>,
             4 := new_RowNode\<lparr>id_node := Some ''n5''\<rparr>)"
  let ?ev = "[Global Events_EVENT_ROW_SELECTED (NodeEvent 2),
              Global Events_EVENT_ROW_SELECTED (NodeEvent 3),
              Global Events_EVENT_SELECTION_CHANGED NoEvent]"
  have forward: "map_res (\<lambda>(c, g'). (c, heap g', events g')) ?X = Some (Inr (Num 2, ?h, ?ev))"
    by (simp add: doRowRangeSelection_def doRowRangeSelection_callback_def Let_def
        isParentOfNode_def selectThisNode_def ex_env5_def ex_env_def ex_grid5_def
        new_RowNode_def update_node_def main_dispatchEvent_def dispatchLocalEvent_def
        fun_eq_iff)
  have hyps: "(1::nat) \<noteq> 3 \<and> rangeSelect ex_range_params = Some True \<and> rowModelNormal ex_env5
      \<and> isRowSelectionMulti ex_env5
      \<and> id_node (heap ex_grid5 1) \<noteq> None \<and> id_node (heap ex_grid5 3) \<noteq> None
      \<and> \<not> truthy_string (floating (heap ex_grid5 1)) \<and> \<not> truthy_string (floating (heap ex_grid5 3))
      \<and> \<not> footer (heap ex_grid5 1) \<and> \<not> footer (heap ex_grid5 3)"
    by (simp add: ex_range_params_def ex_env5_def ex_env_def ex_grid5_def new_RowNode_def)
  note inst = doRowRangeSelection_symmetric
      [where fuel = 0 and e = ex_env5 and g = ex_grid5 and A = 1 and B = 3 and params = ex_range_params]
  from inst hyps have call: "setSelectedParams (Suc 0) ex_env5
      (ex_grid5\<lparr>lastSelectedNode := Some 3\<rparr>) 1 ex_range_params = ?Y"
    by blast
  from inst forward
  have backward: "map_res (\<lambda>(c, g'). (c, heap g', events g')) ?Y = Some (Inr (Num 2, ?h, ?ev))"
    by simp
  then obtain g' where ret: "?Y = Some (Inr (Num 2, g'))" and h: "heap g' = ?h"
    by (auto dest!: map_res_Inr)
  show ?thesis
    unfolding call ret by (simp add: h new_RowNode_def)
qed

end
